theory Spec2Isabelle
  imports Main "HOL-Library.Multiset"
begin

section \<open>Numbers of the host language\<close>

text \<open>
  The machine stores plain host numbers (IEEE-754 doubles) in its \<open>I32\<close> boxes and
  computes on them with the host operators \<open>+\<close>, \<open>-\<close>, \<open>*\<close>, \<open>/\<close> and
  \<open>Math.trunc\<close>. Every immediate the instruction set is given here is an integer, and
  the four arithmetic instructions map integer-valued doubles, the two zeros, the two
  infinities and NaN to values of the same kind, so the model keeps exactly those:
  \<open>Fin i\<close> is the double whose value is the integer \<open>i\<close> (\<open>Fin 0\<close> is \<open>+0\<close>),
  \<open>NegZero\<close> is \<open>-0\<close>.
\<close>

datatype number = Fin int | NegZero | PosInf | NegInf | NaN

fun is_inf :: "number \<Rightarrow> bool" where
  "is_inf PosInf = True"
| "is_inf NegInf = True"
| "is_inf _ = False"

fun is_zero :: "number \<Rightarrow> bool" where
  "is_zero (Fin i) = (i = 0)"
| "is_zero NegZero = True"
| "is_zero _ = False"

text \<open>The sign bit: \<open>True\<close> for a negative number, for \<open>-0\<close> and for \<open>-Infinity\<close>.\<close>

fun negative :: "number \<Rightarrow> bool" where
  "negative (Fin i) = (i < 0)"
| "negative NegZero = True"
| "negative NegInf = True"
| "negative _ = False"

fun the_int :: "number \<Rightarrow> int" where
  "the_int (Fin i) = i"
| "the_int _ = 0"

fun magnitude :: "number \<Rightarrow> int" where
  "magnitude (Fin i) = \<bar>i\<bar>"
| "magnitude _ = 0"

text \<open>The number of binary digits of a positive integer.\<close>

function bitlen :: "int \<Rightarrow> nat" where
  "bitlen n = (if n \<le> 0 then 0 else Suc (bitlen (n div 2)))"
  by pat_completeness auto
termination
  by (relation "measure nat") auto

declare bitlen.simps [simp del]

text \<open>
  Rounding of a non-negative integer to 53 significant bits, to nearest, ties to even: what a
  double keeps of an exact integer result (the exponent range is handled by
  \<open>double_of_int\<close>).
\<close>

definition round_double :: "int \<Rightarrow> int" where
  "round_double m =
     (let k = bitlen m in
      if k \<le> 53 then m
      else
        let u = 2 ^ (k - 53); q = m div u; r = m mod u in
        if u < 2 * r \<or> (u = 2 * r \<and> odd q) then (q + 1) * u else q * u)"

text \<open>
  The double nearest to a non-zero exact integer result; a magnitude that rounds to
  \<open>2 ^ 1024\<close> or more overflows to an infinity.
\<close>

definition double_of_int :: "int \<Rightarrow> number" where
  "double_of_int i =
     (let m = round_double \<bar>i\<bar> in
      if 2 ^ 1024 \<le> m then (if i < 0 then NegInf else PosInf)
      else Fin (if i < 0 then - m else m))"

text \<open>The host's \<open>x + y\<close> on numbers.\<close>

definition num_add :: "number \<Rightarrow> number \<Rightarrow> number" where
  "num_add x y =
     (if x = NaN \<or> y = NaN then NaN
      else if is_inf x \<and> is_inf y then (if x = y then x else NaN)
      else if is_inf x then x
      else if is_inf y then y
      else if x = NegZero \<and> y = NegZero then NegZero
      else double_of_int (the_int x + the_int y))"

fun num_neg :: "number \<Rightarrow> number" where
  "num_neg (Fin i) = (if i = 0 then NegZero else Fin (- i))"
| "num_neg NegZero = Fin 0"
| "num_neg PosInf = NegInf"
| "num_neg NegInf = PosInf"
| "num_neg NaN = NaN"

text \<open>The host's \<open>x - y\<close>: in IEEE-754 arithmetic it is \<open>x + (-y)\<close>, signed zeros included.\<close>

definition num_sub :: "number \<Rightarrow> number \<Rightarrow> number" where
  "num_sub x y = num_add x (num_neg y)"

text \<open>The host's \<open>x * y\<close>.\<close>

definition num_mul :: "number \<Rightarrow> number \<Rightarrow> number" where
  "num_mul x y =
     (if x = NaN \<or> y = NaN then NaN
      else if (is_inf x \<and> is_zero y) \<or> (is_zero x \<and> is_inf y) then NaN
      else if is_inf x \<or> is_inf y then (if negative x \<noteq> negative y then NegInf else PosInf)
      else if is_zero x \<or> is_zero y then (if negative x \<noteq> negative y then NegZero else Fin 0)
      else double_of_int (the_int x * the_int y))"

text \<open>
  \<open>Math.trunc(a / b)\<close> for positive integers \<open>a\<close> and \<open>b\<close>: the quotient is first rounded
  to a double, then truncated. With \<open>q = a div b\<close>: below \<open>2 ^ 52\<close> the doubles are
  spaced by at most a half, and the rounded quotient reaches \<open>q + 1\<close> exactly when the
  exact one is at most half a spacing under it; from \<open>2 ^ 52\<close> on every double is an
  integer and the rounded quotient is the exact one rounded to 53 significant bits.
\<close>

definition trunc_quotient :: "int \<Rightarrow> int \<Rightarrow> int" where
  "trunc_quotient a b =
     (let q = a div b; r = a mod b in
      if q < 2 ^ 52 then (if (b - r) * 2 ^ (54 - bitlen q) \<le> b then q + 1 else q)
      else
        let u = 2 ^ (bitlen q - 53); m = q div u; rest = a - m * u * b in
        if u * b < 2 * rest \<or> (u * b = 2 * rest \<and> odd m) then (m + 1) * u else m * u)"

text \<open>The host's \<open>Math.trunc(x / y)\<close>, the function \<open>i32.div_s\<close> hands to \<open>binop\<close>.\<close>

definition num_div_trunc :: "number \<Rightarrow> number \<Rightarrow> number" where
  "num_div_trunc x y =
     (if x = NaN \<or> y = NaN then NaN
      else if is_inf x \<and> is_inf y then NaN
      else if is_zero x \<and> is_zero y then NaN
      else if is_inf x \<or> is_zero y then (if negative x \<noteq> negative y then NegInf else PosInf)
      else if is_inf y \<or> is_zero x then (if negative x \<noteq> negative y then NegZero else Fin 0)
      else
        let t = trunc_quotient (magnitude x) (magnitude y) in
        if negative x \<noteq> negative y then (if t = 0 then NegZero else Fin (- t))
        else Fin t)"

text \<open>The host's numeric equality: NaN equals nothing, the two zeros are equal.\<close>

definition num_eq :: "number \<Rightarrow> number \<Rightarrow> bool" where
  "num_eq x y = (x \<noteq> NaN \<and> y \<noteq> NaN \<and> (x = y \<or> (is_zero x \<and> is_zero y)))"

text \<open>The host's \<open>x < y\<close> on numbers: false whenever an operand is NaN.\<close>

definition num_lt :: "number \<Rightarrow> number \<Rightarrow> bool" where
  "num_lt x y =
     (if x = NaN \<or> y = NaN then False
      else if x = NegInf then y \<noteq> NegInf
      else if y = PosInf then x \<noteq> PosInf
      else if x = PosInf \<or> y = NegInf then False
      else the_int x < the_int y)"

text \<open>The host's \<open>x <= y\<close>: \<open>y < x\<close> is evaluated and must be false, not undefined.\<close>

definition num_le :: "number \<Rightarrow> number \<Rightarrow> bool" where
  "num_le x y = (x \<noteq> NaN \<and> y \<noteq> NaN \<and> \<not> num_lt y x)"

section \<open>Values\<close>

text \<open>
  \<open>class I32 { constructor(value) { this.value = value; } }\<close>. The \<open>value\<close> field
  holds a number, or \<open>undefined\<close> when the box was built by \<open>new I32()\<close>, as
  \<open>callFunction\<close> does for declared locals.
\<close>

datatype prim = Number number | Undef

text \<open>What a stack slot, a local or a global holds: an \<open>I32\<close> box or \<open>undefined\<close>.\<close>

datatype val = I32 prim | Undefined

text \<open>The classes used as type tags (\<open>popType(T)\<close>, \<open>new T()\<close>); there is one.\<close>

datatype valtype = I32_class

abbreviation i32 :: "int \<Rightarrow> val" where
  "i32 n \<equiv> I32 (Number (Fin n))"

fun instanceof :: "val \<Rightarrow> valtype \<Rightarrow> bool" where
  "instanceof (I32 p) I32_class = True"
| "instanceof Undefined I32_class = False"

fun new :: "valtype \<Rightarrow> val" where
  "new I32_class = I32 Undef"

text \<open>
  The field read \<open>c.value\<close>. The instructions read it only from what a typed pop
  returned, which is a box.
\<close>

fun val_value :: "val \<Rightarrow> prim" where
  "val_value (I32 p) = p"
| "val_value Undefined = Undef"

text \<open>Conversion of a field content to a number: \<open>undefined\<close> becomes NaN.\<close>

fun to_number :: "prim \<Rightarrow> number" where
  "to_number (Number n) = n"
| "to_number Undef = NaN"

text \<open>The host operators on field contents (no operand is ever a string).\<close>

definition js_add :: "prim \<Rightarrow> prim \<Rightarrow> prim" where
  "js_add a b = Number (num_add (to_number a) (to_number b))"

definition js_sub :: "prim \<Rightarrow> prim \<Rightarrow> prim" where
  "js_sub a b = Number (num_sub (to_number a) (to_number b))"

definition js_mul :: "prim \<Rightarrow> prim \<Rightarrow> prim" where
  "js_mul a b = Number (num_mul (to_number a) (to_number b))"

definition js_div_trunc :: "prim \<Rightarrow> prim \<Rightarrow> prim" where
  "js_div_trunc a b = Number (num_div_trunc (to_number a) (to_number b))"

text \<open>\<open>a === b\<close> on field contents; \<open>a !== b\<close> is its negation.\<close>

fun strict_eq :: "prim \<Rightarrow> prim \<Rightarrow> bool" where
  "strict_eq (Number x) (Number y) = num_eq x y"
| "strict_eq Undef Undef = True"
| "strict_eq _ _ = False"

definition js_lt :: "prim \<Rightarrow> prim \<Rightarrow> bool" where
  "js_lt a b = num_lt (to_number a) (to_number b)"

definition js_le :: "prim \<Rightarrow> prim \<Rightarrow> bool" where
  "js_le a b = num_le (to_number a) (to_number b)"

text \<open>
  \<open>v === p\<close> where \<open>v\<close> is a stack value and \<open>p\<close> a primitive: a box is an object and
  is never strictly equal to a primitive.
\<close>

fun val_strict_eq :: "val \<Rightarrow> prim \<Rightarrow> bool" where
  "val_strict_eq (I32 c) p = False"
| "val_strict_eq Undefined p = (p = Undef)"

section \<open>Errors\<close>

text \<open>
  What the code throws: the two \<open>Error\<close>s of the index assertions, the \<open>Error\<close> of
  \<open>assertTopIsOfType\<close>, and the host's \<open>TypeError\<close> for reading a property of
  \<open>undefined\<close> or calling a member that is not a function. A failing operation is
  modelled by its error alone: the state it leaves behind is not part of the model.
\<close>

datatype error =
  Invalid_local_index int
| Invalid_global_index int
| Expected_on_top valtype val
| TypeError

section \<open>The operand stack\<close>

record Stack =
  items :: "val list"

definition new_Stack :: Stack where
  "new_Stack = \<lparr>items = []\<rparr>"

definition Stack_push :: "'a Stack_scheme \<Rightarrow> val \<Rightarrow> 'a Stack_scheme" where
  "Stack_push s v = s\<lparr>items := items s @ [v]\<rparr>"

text \<open>\<open>Array.prototype.pop\<close> on an empty array returns \<open>undefined\<close> and changes nothing.\<close>

definition Stack_pop :: "'a Stack_scheme \<Rightarrow> val \<times> 'a Stack_scheme" where
  "Stack_pop s =
     (if items s = [] then (Undefined, s)
      else (last (items s), s\<lparr>items := butlast (items s)\<rparr>))"

text \<open>\<open>items.at(-1)\<close> is \<open>undefined\<close> on an empty array.\<close>

definition Stack_peek :: "'a Stack_scheme \<Rightarrow> val" where
  "Stack_peek s = (if items s = [] then Undefined else last (items s))"

definition topIsOfType :: "'a Stack_scheme \<Rightarrow> valtype \<Rightarrow> bool" where
  "topIsOfType s T = instanceof (Stack_peek s) T"

definition assertTopIsOfType :: "'a Stack_scheme \<Rightarrow> valtype \<Rightarrow> error + unit" where
  "assertTopIsOfType s T =
     (if \<not> topIsOfType s T then Inl (Expected_on_top T (Stack_peek s)) else Inr ())"

definition Stack_popType :: "'a Stack_scheme \<Rightarrow> valtype \<Rightarrow> error + val \<times> 'a Stack_scheme" where
  "Stack_popType s T =
     (case assertTopIsOfType s T of
        Inl e \<Rightarrow> Inl e
      | Inr _ \<Rightarrow> Inr (Stack_pop s))"

definition Stack_popI32 :: "'a Stack_scheme \<Rightarrow> error + val \<times> 'a Stack_scheme" where
  "Stack_popI32 s = Stack_popType s I32_class"

section \<open>Instructions\<close>

text \<open>
  The instruction objects the two source files construct, one constructor per opcode
  name; the immediate of \<open>i32.const\<close>, and the index the closures of the indexed
  instructions capture, are the constructor's argument. The scans below test an
  instruction's \<open>name\<close>, which the constructor determines.
\<close>

datatype Instruction =
  Nop
| I32_const number
| Drop
| I32_add | I32_sub | I32_mul | I32_div_s
| I32_eq | I32_ne | I32_lt_s | I32_gt_s | I32_le_s | I32_ge_s
| Local_get int | Local_set int | Local_tee int
| Block | End | Br int | Br_if int | Loop | If | Else
| Call int
| Global_get int | Global_set int

text \<open>\<open>xs[i]\<close> on a host array: \<open>undefined\<close> (here \<open>None\<close>) outside the range.\<close>

definition at_index :: "'a list \<Rightarrow> int \<Rightarrow> 'a option" where
  "at_index xs i = (if 0 \<le> i \<and> i < int (length xs) then Some (xs ! nat i) else None)"

text \<open>Sequencing of two fallible steps: the first error aborts.\<close>

definition seq :: "error + 'a \<Rightarrow> ('a \<Rightarrow> error + 'b) \<Rightarrow> error + 'b" where
  "seq m k = (case m of Inl e \<Rightarrow> Inl e | Inr x \<Rightarrow> k x)"

section \<open>Block frames and call frames\<close>

record BlockFrame = Stack +
  type :: "valtype list list"
  breakTargetPc :: int

definition new_BlockFrame :: "valtype list list \<Rightarrow> int \<Rightarrow> BlockFrame" where
  "new_BlockFrame ty target = \<lparr>items = [], type = ty, breakTargetPc = target\<rparr>"

record CallFrame =
  blocks :: "BlockFrame list"
  instructions :: "Instruction list"
  locals :: "val list"
  pc :: int

definition currentBlock :: "CallFrame \<Rightarrow> BlockFrame option" where
  "currentBlock f = (if blocks f = [] then None else Some (last (blocks f)))"

definition pushFrame :: "CallFrame \<Rightarrow> BlockFrame \<Rightarrow> CallFrame" where
  "pushFrame f b = f\<lparr>blocks := blocks f @ [b]\<rparr>"

definition popFrame :: "CallFrame \<Rightarrow> BlockFrame option \<times> CallFrame" where
  "popFrame f =
     (if blocks f = [] then (None, f)
      else (Some (last (blocks f)), f\<lparr>blocks := butlast (blocks f)\<rparr>))"

definition new_CallFrame :: "Instruction list \<Rightarrow> val list \<Rightarrow> valtype list list \<Rightarrow> CallFrame" where
  "new_CallFrame ins ls rootBlockType =
     \<lparr>blocks = [new_BlockFrame rootBlockType (int (length ins) - 1)],
      instructions = ins, locals = ls, pc = 0\<rparr>"

text \<open>
  The loop of \<open>findMatchingEndPc\<close>, from the state \<open>(remainingBlocks, pc)\<close>. Reading
  the \<open>name\<close> of \<open>instructions[pc]\<close> past the end of the array is a \<open>TypeError\<close>.
\<close>

function scan_end :: "Instruction list \<Rightarrow> int \<Rightarrow> int \<Rightarrow> error + int" where
  "scan_end ins remainingBlocks p =
     (if remainingBlocks > 0 then
        (case at_index ins (p + 1) of
           None \<Rightarrow> Inl TypeError
         | Some i \<Rightarrow>
             if i = End then scan_end ins (remainingBlocks - 1) (p + 1)
             else if i = Block \<or> i = Loop \<or> i = If then scan_end ins (remainingBlocks + 1) (p + 1)
             else scan_end ins remainingBlocks (p + 1))
      else Inr p)"
  by pat_completeness auto
termination
  by (relation "measure (\<lambda>(ins, r, p). nat (int (length ins) - p))")
     (auto simp: at_index_def split: if_splits)

declare scan_end.simps [simp del]

definition findMatchingEndPc :: "CallFrame \<Rightarrow> error + int" where
  "findMatchingEndPc f = scan_end (instructions f) 1 (pc f)"

function scan_else :: "Instruction list \<Rightarrow> int \<Rightarrow> int \<Rightarrow> error + int" where
  "scan_else ins remainingBlocks p =
     (if remainingBlocks > 0 then
        (case at_index ins (p + 1) of
           None \<Rightarrow> Inl TypeError
         | Some i \<Rightarrow>
             if i = Else then scan_else ins (remainingBlocks - 1) (p + 1)
             else if i = If then scan_else ins (remainingBlocks + 1) (p + 1)
             else scan_else ins remainingBlocks (p + 1))
      else Inr p)"
  by pat_completeness auto
termination
  by (relation "measure (\<lambda>(ins, r, p). nat (int (length ins) - p))")
     (auto simp: at_index_def split: if_splits)

declare scan_else.simps [simp del]

definition findMatchingElsePc :: "CallFrame \<Rightarrow> error + int" where
  "findMatchingElsePc f = scan_else (instructions f) 1 (pc f)"

text \<open>The \<open>while (blocksToPop > 0)\<close> loop of \<open>breakToLabel\<close>.\<close>

fun pop_frames :: "nat \<Rightarrow> BlockFrame option \<Rightarrow> CallFrame \<Rightarrow> BlockFrame option \<times> CallFrame" where
  "pop_frames 0 blockFrame f = (blockFrame, f)"
| "pop_frames (Suc n) blockFrame f = (case popFrame f of (b, f') \<Rightarrow> pop_frames n b f')"

definition breakToLabel :: "CallFrame \<Rightarrow> int \<Rightarrow> error + CallFrame" where
  "breakToLabel f labelidx =
     (case popFrame f of (b0, f0) \<Rightarrow>
       (case pop_frames (nat labelidx) b0 f0 of (blockFrame, f1) \<Rightarrow>
          (case blockFrame of
             None \<Rightarrow> Inl TypeError
           | Some b \<Rightarrow> Inr (f1\<lparr>pc := breakTargetPc b\<rparr>))))"

text \<open>
  The stack operations of a call frame act on its current block; with no block left,
  \<open>this.currentBlock\<close> is \<open>undefined\<close> and the member call is a \<open>TypeError\<close>.
\<close>

definition set_currentBlock :: "CallFrame \<Rightarrow> BlockFrame \<Rightarrow> CallFrame" where
  "set_currentBlock f b = f\<lparr>blocks := butlast (blocks f) @ [b]\<rparr>"

definition CallFrame_push :: "CallFrame \<Rightarrow> val \<Rightarrow> error + CallFrame" where
  "CallFrame_push f v =
     (case currentBlock f of
        None \<Rightarrow> Inl TypeError
      | Some b \<Rightarrow> Inr (set_currentBlock f (Stack_push b v)))"

definition CallFrame_pop :: "CallFrame \<Rightarrow> error + val \<times> CallFrame" where
  "CallFrame_pop f =
     (case currentBlock f of
        None \<Rightarrow> Inl TypeError
      | Some b \<Rightarrow> (case Stack_pop b of (v, b') \<Rightarrow> Inr (v, set_currentBlock f b')))"

definition CallFrame_peek :: "CallFrame \<Rightarrow> error + val" where
  "CallFrame_peek f =
     (case currentBlock f of
        None \<Rightarrow> Inl TypeError
      | Some b \<Rightarrow> Inr (Stack_peek b))"

definition CallFrame_popType :: "CallFrame \<Rightarrow> valtype \<Rightarrow> error + val \<times> CallFrame" where
  "CallFrame_popType f T =
     (case currentBlock f of
        None \<Rightarrow> Inl TypeError
      | Some b \<Rightarrow> seq (Stack_popType b T) (\<lambda>(v, b'). Inr (v, set_currentBlock f b')))"

definition CallFrame_popI32 :: "CallFrame \<Rightarrow> error + val \<times> CallFrame" where
  "CallFrame_popI32 f =
     (case currentBlock f of
        None \<Rightarrow> Inl TypeError
      | Some b \<Rightarrow> seq (Stack_popI32 b) (\<lambda>(v, b'). Inr (v, set_currentBlock f b')))"

definition finished :: "CallFrame \<Rightarrow> bool" where
  "finished f = (pc f = int (length (instructions f)))"

section \<open>Functions and the instance\<close>

record Func =
  instructions :: "Instruction list"
  locals :: "valtype list"
  args :: "valtype list"
  returns :: "valtype list"

record Instance =
  callStack :: "CallFrame list"
  "functions" :: "Func list"
  globals :: "val list"

definition new_Instance :: Instance where
  "new_Instance = \<lparr>callStack = [], functions = [], globals = []\<rparr>"

definition currentFrame :: "Instance \<Rightarrow> CallFrame option" where
  "currentFrame inst = (if callStack inst = [] then None else Some (last (callStack inst)))"

definition set_currentFrame :: "Instance \<Rightarrow> CallFrame \<Rightarrow> Instance" where
  "set_currentFrame inst f = inst\<lparr>callStack := butlast (callStack inst) @ [f]\<rparr>"

definition addFunction :: "Instance \<Rightarrow> Func \<Rightarrow> int \<times> Instance" where
  "addFunction inst func =
     (int (length (functions inst)), inst\<lparr>functions := functions inst @ [func]\<rparr>)"

text \<open>
  The argument loop of \<open>callFunction\<close>, \<open>n\<close> iterations to go: each pops one value from
  the calling frame and pushes it on the called frame. \<open>callingFrame\<close> is
  \<open>undefined\<close> when the call stack was empty.
\<close>

fun pass_args :: "nat \<Rightarrow> CallFrame option \<Rightarrow> CallFrame \<Rightarrow> error + CallFrame option \<times> CallFrame" where
  "pass_args 0 callingFrame calledFrame = Inr (callingFrame, calledFrame)"
| "pass_args (Suc n) callingFrame calledFrame =
     (case callingFrame of
        None \<Rightarrow> Inl TypeError
      | Some c \<Rightarrow>
          seq (CallFrame_pop c) (\<lambda>(v, c').
          seq (CallFrame_push calledFrame v) (\<lambda>calledFrame'.
          pass_args n (Some c') calledFrame')))"

text \<open>
  \<open>callFunction\<close>: the calling frame is the object on top of the call stack, so the
  pops of the argument loop are seen there; the called frame is pushed above it.
\<close>

definition callFunction :: "Instance \<Rightarrow> int \<Rightarrow> error + Instance" where
  "callFunction inst index =
     (case at_index (functions inst) index of
        None \<Rightarrow> Inl TypeError
      | Some fn \<Rightarrow>
          seq (pass_args (length (args fn)) (currentFrame inst)
                 (new_CallFrame (Func.instructions fn) (map new (Func.locals fn)) [args fn, returns fn]))
            (\<lambda>(callingFrame, calledFrame).
               Inr (inst\<lparr>callStack :=
                      (case callingFrame of
                         None \<Rightarrow> callStack inst
                       | Some c \<Rightarrow> butlast (callStack inst) @ [c]) @ [calledFrame]\<rparr>)))"

text \<open>The runtime interface of the instance delegates to the current frame.\<close>

definition Instance_push :: "Instance \<Rightarrow> val \<Rightarrow> error + Instance" where
  "Instance_push inst v =
     (case currentFrame inst of
        None \<Rightarrow> Inl TypeError
      | Some f \<Rightarrow> seq (CallFrame_push f v) (\<lambda>f'. Inr (set_currentFrame inst f')))"

definition Instance_pop :: "Instance \<Rightarrow> error + val \<times> Instance" where
  "Instance_pop inst =
     (case currentFrame inst of
        None \<Rightarrow> Inl TypeError
      | Some f \<Rightarrow> seq (CallFrame_pop f) (\<lambda>(v, f'). Inr (v, set_currentFrame inst f')))"

definition Instance_peek :: "Instance \<Rightarrow> error + val" where
  "Instance_peek inst =
     (case currentFrame inst of
        None \<Rightarrow> Inl TypeError
      | Some f \<Rightarrow> CallFrame_peek f)"

definition Instance_popI32 :: "Instance \<Rightarrow> error + val \<times> Instance" where
  "Instance_popI32 inst =
     (case currentFrame inst of
        None \<Rightarrow> Inl TypeError
      | Some f \<Rightarrow> seq (CallFrame_popI32 f) (\<lambda>(v, f'). Inr (v, set_currentFrame inst f')))"

definition Instance_findMatchingEndPc :: "Instance \<Rightarrow> error + int" where
  "Instance_findMatchingEndPc inst =
     (case currentFrame inst of
        None \<Rightarrow> Inl TypeError
      | Some f \<Rightarrow> findMatchingEndPc f)"

definition Instance_findMatchingElsePc :: "Instance \<Rightarrow> error + int" where
  "Instance_findMatchingElsePc inst =
     (case currentFrame inst of
        None \<Rightarrow> Inl TypeError
      | Some f \<Rightarrow> findMatchingElsePc f)"

definition Instance_breakToLabel :: "Instance \<Rightarrow> int \<Rightarrow> error + Instance" where
  "Instance_breakToLabel inst labelidx =
     (case currentFrame inst of
        None \<Rightarrow> Inl TypeError
      | Some f \<Rightarrow> seq (breakToLabel f labelidx) (\<lambda>f'. Inr (set_currentFrame inst f')))"

section \<open>Evaluation of instructions\<close>

text \<open>
  An instruction's behaviour receives the object it runs on (\<open>vm\<close>) and uses whatever
  members that object has. The receivers modelled are a bare \<open>Stack\<close> (the first
  source file runs instructions on one; its class \<open>VM\<close> forwards the stack members
  to its own \<open>Stack\<close>), a \<open>CallFrame\<close> (\<open>CallFrame.step\<close> passes \<open>this\<close>) and
  an \<open>Instance\<close> (\<open>Instance.step\<close> passes \<open>this\<close>). A receiver is described by
  the record of its members; calling a member the class does not define is a
  \<open>TypeError\<close>, and reading a field it does not have yields \<open>undefined\<close>
  (\<open>None\<close>).
\<close>

record 'vm runtime =
  vm_push :: "'vm \<Rightarrow> val \<Rightarrow> error + 'vm"
  vm_pop :: "'vm \<Rightarrow> error + val \<times> 'vm"
  vm_peek :: "'vm \<Rightarrow> error + val"
  vm_popI32 :: "'vm \<Rightarrow> error + val \<times> 'vm"
  vm_locals :: "'vm \<Rightarrow> val list option"
  vm_set_local :: "'vm \<Rightarrow> int \<Rightarrow> val \<Rightarrow> 'vm"
  vm_globals :: "'vm \<Rightarrow> val list option"
  vm_set_global :: "'vm \<Rightarrow> int \<Rightarrow> val \<Rightarrow> 'vm"
  vm_pc :: "'vm \<Rightarrow> int option"
  vm_set_pc :: "'vm \<Rightarrow> int \<Rightarrow> 'vm"
  vm_pushFrame :: "'vm \<Rightarrow> BlockFrame \<Rightarrow> error + 'vm"
  vm_popFrame :: "'vm \<Rightarrow> error + BlockFrame option \<times> 'vm"
  vm_findMatchingEndPc :: "'vm \<Rightarrow> error + int"
  vm_findMatchingElsePc :: "'vm \<Rightarrow> error + int"
  vm_breakToLabel :: "'vm \<Rightarrow> int \<Rightarrow> error + 'vm"
  vm_callFunction :: "'vm \<Rightarrow> int \<Rightarrow> error + 'vm"

text \<open>
  A bare \<open>Stack\<close> has the stack members only. (An assignment to a field the class does
  not have would create it; no instruction reaches such an assignment on a \<open>Stack\<close>
  or an \<open>Instance\<close> without raising an error in the same evaluation, so the setters
  of absent fields leave the model's state as it is.)
\<close>

definition Stack_runtime :: "Stack runtime" where
  "Stack_runtime =
     \<lparr>vm_push = (\<lambda>s v. Inr (Stack_push s v)),
      vm_pop = (\<lambda>s. Inr (Stack_pop s)),
      vm_peek = (\<lambda>s. Inr (Stack_peek s)),
      vm_popI32 = Stack_popI32,
      vm_locals = (\<lambda>s. None),
      vm_set_local = (\<lambda>s i v. s),
      vm_globals = (\<lambda>s. None),
      vm_set_global = (\<lambda>s i v. s),
      vm_pc = (\<lambda>s. None),
      vm_set_pc = (\<lambda>s p. s),
      vm_pushFrame = (\<lambda>s b. Inl TypeError),
      vm_popFrame = (\<lambda>s. Inl TypeError),
      vm_findMatchingEndPc = (\<lambda>s. Inl TypeError),
      vm_findMatchingElsePc = (\<lambda>s. Inl TypeError),
      vm_breakToLabel = (\<lambda>s l. Inl TypeError),
      vm_callFunction = (\<lambda>s i. Inl TypeError)\<rparr>"

text \<open>A \<open>CallFrame\<close> has locals, a pc and the block members; no globals, no \<open>callFunction\<close>.\<close>

definition CallFrame_runtime :: "CallFrame runtime" where
  "CallFrame_runtime =
     \<lparr>vm_push = CallFrame_push,
      vm_pop = CallFrame_pop,
      vm_peek = CallFrame_peek,
      vm_popI32 = CallFrame_popI32,
      vm_locals = (\<lambda>f. Some (CallFrame.locals f)),
      vm_set_local = (\<lambda>f i v. f\<lparr>CallFrame.locals := (CallFrame.locals f)[nat i := v]\<rparr>),
      vm_globals = (\<lambda>f. None),
      vm_set_global = (\<lambda>f i v. f),
      vm_pc = (\<lambda>f. Some (pc f)),
      vm_set_pc = (\<lambda>f p. f\<lparr>pc := p\<rparr>),
      vm_pushFrame = (\<lambda>f b. Inr (pushFrame f b)),
      vm_popFrame = (\<lambda>f. Inr (popFrame f)),
      vm_findMatchingEndPc = findMatchingEndPc,
      vm_findMatchingElsePc = findMatchingElsePc,
      vm_breakToLabel = breakToLabel,
      vm_callFunction = (\<lambda>f i. Inl TypeError)\<rparr>"

text \<open>
  An \<open>Instance\<close> has globals, \<open>callFunction\<close> and the delegating members of its
  runtime interface; it has no \<open>locals\<close>, no \<open>pc\<close>, no \<open>pushFrame\<close> and no
  \<open>popFrame\<close>.
\<close>

definition Instance_runtime :: "Instance runtime" where
  "Instance_runtime =
     \<lparr>vm_push = Instance_push,
      vm_pop = Instance_pop,
      vm_peek = Instance_peek,
      vm_popI32 = Instance_popI32,
      vm_locals = (\<lambda>inst. None),
      vm_set_local = (\<lambda>inst i v. inst),
      vm_globals = (\<lambda>inst. Some (globals inst)),
      vm_set_global = (\<lambda>inst i v. inst\<lparr>globals := (globals inst)[nat i := v]\<rparr>),
      vm_pc = (\<lambda>inst. None),
      vm_set_pc = (\<lambda>inst p. inst),
      vm_pushFrame = (\<lambda>inst b. Inl TypeError),
      vm_popFrame = (\<lambda>inst. Inl TypeError),
      vm_findMatchingEndPc = Instance_findMatchingEndPc,
      vm_findMatchingElsePc = Instance_findMatchingElsePc,
      vm_breakToLabel = Instance_breakToLabel,
      vm_callFunction = callFunction\<rparr>"

text \<open>
  \<open>index < 0 || index >= locals.length\<close>: the length is read only when the first
  test is false, and reading it from \<open>undefined\<close> is a \<open>TypeError\<close>.
\<close>

definition assertLocalIndexInRange :: "val list option \<Rightarrow> int \<Rightarrow> error + unit" where
  "assertLocalIndexInRange ls index =
     (if index < 0 then Inl (Invalid_local_index index)
      else case ls of
        None \<Rightarrow> Inl TypeError
      | Some xs \<Rightarrow> if index \<ge> int (length xs) then Inl (Invalid_local_index index) else Inr ())"

definition assertGlobalIndexInRange :: "val list option \<Rightarrow> int \<Rightarrow> error + unit" where
  "assertGlobalIndexInRange gs index =
     (if index < 0 then Inl (Invalid_global_index index)
      else case gs of
        None \<Rightarrow> Inl TypeError
      | Some xs \<Rightarrow> if index \<ge> int (length xs) then Inl (Invalid_global_index index) else Inr ())"

text \<open>The read \<open>xs[index]\<close> that follows a passed range assertion.\<close>

definition read_at :: "val list option \<Rightarrow> int \<Rightarrow> val" where
  "read_at ls index =
     (case ls of
        None \<Rightarrow> Undefined
      | Some xs \<Rightarrow> (case at_index xs index of None \<Rightarrow> Undefined | Some v \<Rightarrow> v))"

definition binop :: "(prim \<Rightarrow> prim \<Rightarrow> prim) \<Rightarrow> 'vm runtime \<Rightarrow> 'vm \<Rightarrow> error + 'vm" where
  "binop fn rt vm =
     seq (vm_popI32 rt vm) (\<lambda>(c2, vm1).
     seq (vm_popI32 rt vm1) (\<lambda>(c1, vm2).
     vm_push rt vm2 (I32 (fn (val_value c1) (val_value c2)))))"

definition relop :: "(prim \<Rightarrow> prim \<Rightarrow> bool) \<Rightarrow> 'vm runtime \<Rightarrow> 'vm \<Rightarrow> error + 'vm" where
  "relop fn = binop (\<lambda>c1 c2. if fn c1 c2 then Number (Fin 1) else Number (Fin 0))"

text \<open>
  The behaviours, in the order of the sources. \<open>i32.add\<close> is written out there, the
  other arithmetic instructions go through \<open>binop\<close>, the comparisons through
  \<open>relop\<close>. In \<open>loop\<close>, a receiver without \<open>pc\<close> has no \<open>pushFrame\<close> either, and
  the call fails.
\<close>

fun eval :: "'vm runtime \<Rightarrow> Instruction \<Rightarrow> 'vm \<Rightarrow> error + 'vm" where
  "eval rt Nop vm = Inr vm"
| "eval rt (I32_const imm) vm = vm_push rt vm (I32 (Number imm))"
| "eval rt Drop vm = seq (vm_pop rt vm) (\<lambda>(v, vm1). Inr vm1)"
| "eval rt I32_add vm =
     seq (vm_popI32 rt vm) (\<lambda>(c2, vm1).
     seq (vm_popI32 rt vm1) (\<lambda>(c1, vm2).
     vm_push rt vm2 (I32 (js_add (val_value c1) (val_value c2)))))"
| "eval rt I32_sub vm = binop js_sub rt vm"
| "eval rt I32_mul vm = binop js_mul rt vm"
| "eval rt I32_div_s vm = binop js_div_trunc rt vm"
| "eval rt I32_eq vm = relop (\<lambda>c1 c2. strict_eq c1 c2) rt vm"
| "eval rt I32_ne vm = relop (\<lambda>c1 c2. \<not> strict_eq c1 c2) rt vm"
| "eval rt I32_lt_s vm = relop (\<lambda>c1 c2. js_lt c1 c2) rt vm"
| "eval rt I32_gt_s vm = relop (\<lambda>c1 c2. js_lt c2 c1) rt vm"
| "eval rt I32_le_s vm = relop (\<lambda>c1 c2. js_le c1 c2) rt vm"
| "eval rt I32_ge_s vm = relop (\<lambda>c1 c2. js_le c2 c1) rt vm"
| "eval rt (Local_get index) vm =
     seq (assertLocalIndexInRange (vm_locals rt vm) index) (\<lambda>_.
     vm_push rt vm (read_at (vm_locals rt vm) index))"
| "eval rt (Local_set index) vm =
     seq (assertLocalIndexInRange (vm_locals rt vm) index) (\<lambda>_.
     seq (vm_pop rt vm) (\<lambda>(v, vm1).
     Inr (vm_set_local rt vm1 index v)))"
| "eval rt (Local_tee index) vm =
     seq (assertLocalIndexInRange (vm_locals rt vm) index) (\<lambda>_.
     seq (vm_peek rt vm) (\<lambda>v.
     Inr (vm_set_local rt vm index v)))"
| "eval rt Block vm =
     seq (vm_findMatchingEndPc rt vm) (\<lambda>breakTargetPc.
     vm_pushFrame rt vm (new_BlockFrame [] breakTargetPc))"
| "eval rt End vm = seq (vm_popFrame rt vm) (\<lambda>(b, vm1). Inr vm1)"
| "eval rt (Br labelidx) vm = vm_breakToLabel rt vm labelidx"
| "eval rt (Br_if labelidx) vm =
     seq (vm_popI32 rt vm) (\<lambda>(condValue, vm1).
     if \<not> val_strict_eq condValue (Number (Fin 0)) then vm_breakToLabel rt vm1 labelidx
     else Inr vm1)"
| "eval rt Loop vm =
     (case vm_pc rt vm of
        None \<Rightarrow> Inl TypeError
      | Some p \<Rightarrow> vm_pushFrame rt vm (new_BlockFrame [] (p - 1)))"
| "eval rt If vm =
     seq (vm_popI32 rt vm) (\<lambda>(c, vm1).
     if \<not> strict_eq (val_value c) (Number (Fin 0)) then
       seq (vm_findMatchingEndPc rt vm1) (\<lambda>breakTargetPc.
       vm_pushFrame rt vm1 (new_BlockFrame [] breakTargetPc))
     else
       seq (vm_findMatchingElsePc rt vm1) (\<lambda>p.
       seq (vm_findMatchingEndPc rt (vm_set_pc rt vm1 p)) (\<lambda>breakTargetPc.
       vm_pushFrame rt (vm_set_pc rt vm1 p) (new_BlockFrame [] breakTargetPc))))"
| "eval rt Else vm =
     seq (vm_popFrame rt vm) (\<lambda>(b, vm1).
     case b of
       None \<Rightarrow> Inl TypeError
     | Some frame \<Rightarrow> Inr (vm_set_pc rt vm1 (breakTargetPc frame)))"
| "eval rt (Call index) vm = vm_callFunction rt vm index"
| "eval rt (Global_get index) vm =
     seq (assertLocalIndexInRange (vm_globals rt vm) index) (\<lambda>_.
     vm_push rt vm (read_at (vm_globals rt vm) index))"
| "eval rt (Global_set index) vm =
     seq (assertGlobalIndexInRange (vm_globals rt vm) index) (\<lambda>_.
     seq (vm_pop rt vm) (\<lambda>(v, vm1).
     Inr (vm_set_global rt vm1 index v)))"

text \<open>\<open>run(vm, instructions)\<close> of the first source file: evaluation in sequence.\<close>

fun run :: "'vm runtime \<Rightarrow> 'vm \<Rightarrow> Instruction list \<Rightarrow> error + 'vm" where
  "run rt vm [] = Inr vm"
| "run rt vm (i # rest) = seq (eval rt i vm) (\<lambda>vm1. run rt vm1 rest)"

section \<open>Stepping\<close>

text \<open>\<open>CallFrame.step\<close>: an absent instruction is \<open>undefined\<close>, and calling its \<open>eval\<close> fails.\<close>

definition CallFrame_step :: "CallFrame \<Rightarrow> error + CallFrame" where
  "CallFrame_step f =
     (case at_index (CallFrame.instructions f) (pc f) of
        None \<Rightarrow> Inl TypeError
      | Some instruction \<Rightarrow>
          seq (eval CallFrame_runtime instruction f) (\<lambda>f1. Inr (f1\<lparr>pc := pc f1 + 1\<rparr>)))"

text \<open>\<open>count\<close> successive calls of \<open>CallFrame.step\<close>, stopping at the first error.\<close>

fun CallFrame_steps :: "nat \<Rightarrow> CallFrame \<Rightarrow> error + CallFrame" where
  "CallFrame_steps 0 f = Inr f"
| "CallFrame_steps (Suc n) f = seq (CallFrame_step f) (CallFrame_steps n)"

text \<open>
  \<open>CallFrame.run\<close>: \<open>while (!this.finished) this.step()\<close>. The loop need not end;
  \<open>None\<close> is the run that never returns.
\<close>

partial_function (option) CallFrame_run :: "CallFrame \<Rightarrow> (error + CallFrame) option" where
  "CallFrame_run f =
     (if finished f then Some (Inr f)
      else case CallFrame_step f of
        Inl e \<Rightarrow> Some (Inl e)
      | Inr f1 \<Rightarrow> CallFrame_run f1)"

text \<open>
  The class \<open>Stack\<close> defines \<open>items\<close> and its methods, and \<open>BlockFrame\<close> adds
  \<open>type\<close> and \<open>breakTargetPc\<close>: there is no member \<open>size\<close>, so the read
  \<open>frame.currentBlock.size\<close> in \<open>Instance.step\<close> yields \<open>undefined\<close>.
\<close>

definition BlockFrame_size :: "BlockFrame \<Rightarrow> prim" where
  "BlockFrame_size b = Undef"

text \<open>
  The loop \<open>while (frame.currentBlock.size > 0)\<close> of \<open>Instance.step\<close>, which pops a
  value from the finished frame and pushes it on the current frame of the instance.
\<close>

function return_values :: "CallFrame \<Rightarrow> Instance \<Rightarrow> error + Instance" where
  "return_values frame inst =
     (case currentBlock frame of
        None \<Rightarrow> Inl TypeError
      | Some b \<Rightarrow>
          if js_lt (Number (Fin 0)) (BlockFrame_size b) then
            seq (CallFrame_pop frame) (\<lambda>(v, frame1).
            seq (Instance_push inst v) (\<lambda>inst1.
            return_values frame1 inst1))
          else Inr inst)"
  by pat_completeness auto
termination
  by (relation "{}") (simp_all add: BlockFrame_size_def js_lt_def num_lt_def)

declare return_values.simps [simp del]

text \<open>
  \<open>currentFrame.pc += 1\<close> acts on the frame that was current before the evaluation.
  No instruction removes a call frame, so that frame is still at its position \<open>k\<close> of
  the call stack afterwards, below the new frame if the instruction was a call.
\<close>

definition advance_pc :: "nat \<Rightarrow> Instance \<Rightarrow> Instance" where
  "advance_pc k inst =
     (if k < length (callStack inst)
      then inst\<lparr>callStack := (callStack inst)[k := (callStack inst ! k)\<lparr>pc := pc (callStack inst ! k) + 1\<rparr>]\<rparr>
      else inst)"

definition Instance_step :: "Instance \<Rightarrow> error + Instance" where
  "Instance_step inst =
     (case currentFrame inst of
        None \<Rightarrow> Inl TypeError
      | Some cur \<Rightarrow>
          (case at_index (CallFrame.instructions cur) (pc cur) of
             None \<Rightarrow> Inl TypeError
           | Some instruction \<Rightarrow>
               seq (eval Instance_runtime instruction inst) (\<lambda>inst1.
                 let inst2 = advance_pc (length (callStack inst) - 1) inst1 in
                 (case currentFrame inst2 of
                    None \<Rightarrow> Inl TypeError
                  | Some newCurrentFrame \<Rightarrow>
                      if finished newCurrentFrame then
                        let inst3 = inst2\<lparr>callStack := butlast (callStack inst2)\<rparr> in
                        if length (callStack inst3) > 0 then return_values newCurrentFrame inst3
                        else Inr inst3
                      else Inr inst2))))"

fun Instance_steps :: "nat \<Rightarrow> Instance \<Rightarrow> error + Instance" where
  "Instance_steps 0 inst = Inr inst"
| "Instance_steps (Suc n) inst = seq (Instance_step inst) (Instance_steps n)"

section \<open>Vocabulary of the properties\<close>

text \<open>The signed 32-bit range.\<close>

definition is_i32 :: "int \<Rightarrow> bool" where
  "is_i32 i = (- (2 ^ 31) \<le> i \<and> i < 2 ^ 31)"

text \<open>
  Two's-complement wrap-around as the specification words it: the mathematical result
  reduced modulo \<open>2 ^ 32\<close> and read as a signed 32-bit integer. No source function
  computes it.
\<close>

definition wrap32 :: "int \<Rightarrow> int" where
  "wrap32 x = (x + 2 ^ 31) mod 2 ^ 32 - 2 ^ 31"

text \<open>
  The two functions of the source's test \<open>call fn returns instruction\<close>, and the
  instance that registers them in this order.
\<close>

definition fn1 :: Func where
  "fn1 = \<lparr>Func.instructions = [I32_const (Fin 10), Call 1], locals = [], args = [], returns = []\<rparr>"

definition fn2 :: Func where
  "fn2 = \<lparr>Func.instructions = [I32_const (Fin 5), I32_add], locals = [],
           args = [I32_class], returns = [I32_class]\<rparr>"

definition two_functions :: Instance where
  "two_functions = snd (addFunction (snd (addFunction new_Instance fn1)) fn2)"

text \<open>The state of that instance after \<open>callFunction(0)\<close> and one step: \<open>fn1\<close> is about to call.\<close>

definition before_call :: Instance where
  "before_call =
     \<lparr>callStack =
        [\<lparr>blocks = [\<lparr>items = [i32 10], type = [[], []], breakTargetPc = 1\<rparr>],
          instructions = [I32_const (Fin 10), Call 1], locals = [], pc = 1\<rparr>],
      functions = [fn1, fn2], globals = []\<rparr>"

text \<open>
  A function of two parameters and one declared local, and an instance whose current
  frame holds three values when that function is called.
\<close>

definition fn_two_args :: Func where
  "fn_two_args = \<lparr>Func.instructions = [I32_sub], locals = [I32_class],
                   args = [I32_class, I32_class], returns = [I32_class]\<rparr>"

definition two_args_instance :: Instance where
  "two_args_instance =
     \<lparr>callStack =
        [\<lparr>blocks = [\<lparr>items = [i32 7, i32 1, i32 2], type = [[], []], breakTargetPc = 0\<rparr>],
          instructions = [Call 0], locals = [], pc = 0\<rparr>],
      functions = [fn_two_args], globals = []\<rparr>"

text \<open>The program of the source's test \<open>br_if works\<close>, with the condition \<open>0\<close> in place of \<open>1\<close>.\<close>

definition br_if_zero_program :: "Instruction list" where
  "br_if_zero_program =
     [I32_const (Fin 5), Block, I32_const (Fin 0), Br_if 0, I32_const (Fin 10), Drop, End,
      I32_const (Fin 20), Drop, Drop]"

text \<open>
  The instance of the source's test \<open>global.get\<close>, one global, reading index \<open>1\<close>
  instead of \<open>0\<close>; and its sibling that writes index \<open>1\<close>.
\<close>

definition global_get_instance :: Instance where
  "global_get_instance =
     snd (addFunction (new_Instance\<lparr>globals := [i32 100]\<rparr>)
       \<lparr>Func.instructions = [Global_get 1, Nop], locals = [], args = [], returns = []\<rparr>)"

definition global_set_instance :: Instance where
  "global_set_instance =
     snd (addFunction (new_Instance\<lparr>globals := [i32 100]\<rparr>)
       \<lparr>Func.instructions = [I32_const (Fin 42), Global_set 1], locals = [], args = [], returns = []\<rparr>)"

text \<open>The frame of the source's test \<open>loop breaks to the top\<close> after its first step.\<close>

definition loop_frame :: CallFrame where
  "loop_frame = (new_CallFrame [Nop, Loop, Br 0, End] [] [])\<lparr>pc := 1\<rparr>"

section \<open>Host arithmetic on small integers\<close>

text \<open>
  Below \<open>2 ^ 53\<close> every integer is a double, so rounding changes nothing there and
  the truncated quotient of two such integers is the integer quotient.
\<close>

lemma bitlen_le: "n < 2 ^ k \<Longrightarrow> bitlen n \<le> k"
proof (induction k arbitrary: n)
  case 0
  then show ?case by (simp add: bitlen.simps)
next
  case (Suc k)
  show ?case
  proof (cases "n \<le> 0")
    case True
    then show ?thesis by (simp add: bitlen.simps)
  next
    case False
    from Suc.prems have "n div 2 < 2 ^ k" by simp
    then have "bitlen (n div 2) \<le> k" by (rule Suc.IH)
    with False show ?thesis by (subst bitlen.simps) simp
  qed
qed

lemma bitlen_lower: "0 < n \<Longrightarrow> 2 ^ bitlen n \<le> 2 * n"
proof (induction n rule: bitlen.induct)
  case (1 n)
  show ?case
  proof (cases "n div 2 \<le> 0")
    case True
    with "1.prems" have "n = 1" by simp
    then show ?thesis by (simp add: bitlen.simps)
  next
    case False
    with "1.IH" "1.prems" have "2 ^ bitlen (n div 2) \<le> 2 * (n div 2)" by simp
    also have "\<dots> \<le> n" by simp
    finally have "2 * 2 ^ bitlen (n div 2) \<le> 2 * n" by simp
    with "1.prems" show ?thesis by (subst bitlen.simps) simp
  qed
qed

lemma bitlen_ge: "2 ^ k \<le> n \<Longrightarrow> k < bitlen n"
proof (induction k arbitrary: n)
  case 0
  then show ?case by (subst bitlen.simps) simp
next
  case (Suc k)
  then have "2 ^ k \<le> n div 2" by simp
  then have "k < bitlen (n div 2)" by (rule Suc.IH)
  moreover from Suc.prems have "0 < n" by (smt (verit) zero_less_power)
  ultimately show ?case by (subst bitlen.simps) simp
qed

lemma round_double_exact: "m < 2 ^ 53 \<Longrightarrow> round_double m = m"
  using bitlen_le [of m 53] by (simp add: round_double_def)

lemma double_of_int_exact: "\<bar>i\<bar> < 2 ^ 53 \<Longrightarrow> double_of_int i = Fin i"
  by (simp add: double_of_int_def round_double_exact Let_def)

lemma trunc_quotient_exact:
  assumes "0 \<le> a" "a < 2 ^ 53" "0 < b"
  shows "trunc_quotient a b = a div b"
proof -
  define q where "q = a div b"
  define r where "r = a mod b"
  have a: "a = b * q + r" by (simp add: q_def r_def)
  have r: "0 \<le> r" "r < b" using assms by (simp_all add: r_def)
  have q0: "0 \<le> q" using assms by (simp add: q_def pos_imp_zdiv_nonneg_iff)
  have qa: "q \<le> a" using assms q0 r a by (smt (verit) mult_le_cancel_right1 mult.commute)
  show ?thesis
  proof (cases "q < 2 ^ 52")
    case True
    have "\<not> (b - r) * 2 ^ (54 - bitlen q) \<le> b"
    proof (cases "q = 0")
      case True
      then have "bitlen q = 0" by (simp add: bitlen.simps)
      moreover have "\<not> (b - r) * 2 ^ 54 \<le> b" using assms a r True by simp
      ultimately show ?thesis by simp
    next
      case False
      with q0 have qpos: "0 < q" by simp
      have le52: "bitlen q \<le> 52" using True by (rule bitlen_le)
      have "b * 2 ^ bitlen q \<le> b * (2 * q)" using bitlen_lower [OF qpos] assms by simp
      also have "\<dots> \<le> 2 * a" using a r by simp
      also have "\<dots> < 2 ^ 54" using assms by simp
      finally have "b * 2 ^ bitlen q < 2 ^ 54" .
      moreover have "(2::int) ^ 54 = 2 ^ (54 - bitlen q) * 2 ^ bitlen q"
        using le52 by (simp flip: power_add)
      ultimately have "b * 2 ^ bitlen q < 2 ^ (54 - bitlen q) * 2 ^ bitlen q" by simp
      then have "b < 2 ^ (54 - bitlen q)" by simp
      moreover have "(1::int) * 2 ^ (54 - bitlen q) \<le> (b - r) * 2 ^ (54 - bitlen q)"
        using r by (intro mult_right_mono) simp_all
      ultimately show ?thesis by linarith
    qed
    with True show ?thesis by (simp add: trunc_quotient_def Let_def flip: q_def r_def)
  next
    case False
    then have q52: "2 ^ 52 \<le> q" by simp
    have "q < 2 ^ 53" using qa assms by simp
    then have "bitlen q \<le> 53" by (rule bitlen_le)
    moreover have "52 < bitlen q" using q52 by (rule bitlen_ge)
    ultimately have bl: "bitlen q = 53" by simp
    have "b * 2 ^ 52 \<le> b * q" using q52 assms by simp
    also have "\<dots> \<le> a" using a r by simp
    finally have b1: "b = 1" using assms by simp
    then have "q = a" by (simp add: q_def)
    with False bl have "\<not> a < 2 ^ 52" "bitlen a = 53" by simp_all
    with b1 show ?thesis
      by (simp add: trunc_quotient_def Let_def)
  qed
qed

lemma i32_abs_bound: "is_i32 a \<Longrightarrow> \<bar>a\<bar> \<le> 2 ^ 31"
  by (auto simp add: is_i32_def)

lemma num_add_i32:
  assumes "is_i32 a" "is_i32 b"
  shows "num_add (Fin a) (Fin b) = Fin (a + b)"
proof -
  have "\<bar>a + b\<bar> < 2 ^ 53" using i32_abs_bound [OF assms(1)] i32_abs_bound [OF assms(2)] by simp
  then show ?thesis by (simp add: num_add_def double_of_int_exact)
qed

lemma num_sub_i32:
  assumes "is_i32 a" "is_i32 b"
  shows "num_sub (Fin a) (Fin b) = Fin (a - b)"
proof -
  have "\<bar>a - b\<bar> < 2 ^ 53" "\<bar>a\<bar> < 2 ^ 53"
    using i32_abs_bound [OF assms(1)] i32_abs_bound [OF assms(2)] by simp_all
  then show ?thesis by (simp add: num_sub_def num_add_def double_of_int_exact)
qed

lemma round_double_le: "0 \<le> m \<Longrightarrow> round_double m \<le> 2 * m"
proof (cases "bitlen m \<le> 53")
  case True
  assume "0 \<le> m"
  with True show ?thesis by (simp add: round_double_def)
next
  case False
  assume m: "0 \<le> m"
  define u :: int where "u = 2 ^ (bitlen m - 53)"
  define q where "q = m div u"
  have u: "0 < u" by (simp add: u_def)
  have "2 ^ 53 \<le> m"
  proof (rule ccontr)
    assume "\<not> 2 ^ 53 \<le> m"
    then have "m < 2 ^ 53" by simp
    then have "bitlen m \<le> 53" by (rule bitlen_le)
    with False show False by simp
  qed
  have mpos: "0 < m" using \<open>2 ^ 53 \<le> m\<close> by simp
  have "(2::int) ^ (53 + (bitlen m - 53)) = 2 ^ 53 * 2 ^ (bitlen m - 53)" by (rule power_add)
  moreover have "53 + (bitlen m - 53) = bitlen m" using False by simp
  ultimately have "2 ^ 53 * u = (2::int) ^ bitlen m" unfolding u_def by metis
  also have "\<dots> \<le> 2 * m" using mpos by (rule bitlen_lower)
  finally have "2 ^ 52 * u \<le> m" by simp
  then have "(2 ^ 52 * u) div u \<le> m div u" using u by (rule zdiv_mono1)
  then have "2 ^ 52 \<le> q" using u by (simp add: q_def)
  have "q * u = m - m mod u" by (simp add: q_def minus_mod_eq_div_mult)
  moreover have "0 \<le> m mod u" using u by simp
  ultimately have qu: "q * u \<le> m" by simp
  have "(q + 1) * u \<le> 2 * (q * u)" using \<open>2 ^ 52 \<le> q\<close> u by (simp add: algebra_simps)
  with qu have "(q + 1) * u \<le> 2 * m" "q * u \<le> 2 * m" using m by simp_all
  with False show ?thesis by (simp add: round_double_def Let_def flip: u_def q_def)
qed

lemma double_of_int_i32_product:
  assumes "is_i32 a" "is_i32 b"
  shows "double_of_int (a * b) = Fin (sgn (a * b) * round_double \<bar>a * b\<bar>)"
proof -
  have "\<bar>a\<bar> \<le> 2 ^ 31" "\<bar>b\<bar> \<le> 2 ^ 31"
    using i32_abs_bound [OF assms(1)] i32_abs_bound [OF assms(2)] by simp_all
  then have "\<bar>a\<bar> * \<bar>b\<bar> \<le> 2 ^ 31 * 2 ^ 31" by (intro mult_mono) simp_all
  then have "\<bar>a * b\<bar> \<le> 2 ^ 62" by (simp add: abs_mult)
  moreover have "round_double \<bar>a * b\<bar> \<le> 2 * \<bar>a * b\<bar>" by (rule round_double_le) simp
  ultimately have "round_double \<bar>a * b\<bar> \<le> 2 ^ 63" by simp
  then have small: "\<not> 2 ^ 1024 \<le> round_double \<bar>a * b\<bar>" by simp
  show ?thesis
  proof (cases "a * b = 0")
    case True
    have "double_of_int 0 = Fin 0" by (simp add: double_of_int_exact)
    with True show ?thesis by (simp only: sgn_0 mult_zero_left)
  next
    case False
    with small show ?thesis
      by (simp add: double_of_int_def Let_def sgn_if)
  qed
qed

lemma num_mul_i32:
  assumes "is_i32 a" "is_i32 b"
  shows "num_mul (Fin a) (Fin b) =
    (if a * b = 0 then (if a < 0 \<or> b < 0 then NegZero else Fin 0)
     else Fin (sgn (a * b) * round_double \<bar>a * b\<bar>))"
  using double_of_int_i32_product [OF assms]
  by (auto simp add: num_mul_def)

lemma num_div_trunc_i32:
  assumes "is_i32 a" "is_i32 b" "b \<noteq> 0"
  shows "num_div_trunc (Fin a) (Fin b) =
    (if \<bar>a\<bar> div \<bar>b\<bar> = 0 \<and> (a < 0) \<noteq> (b < 0) then NegZero
     else Fin (sgn a * sgn b * (\<bar>a\<bar> div \<bar>b\<bar>)))"
proof -
  have "\<bar>a\<bar> < 2 ^ 53" using i32_abs_bound [OF assms(1)] by simp
  then have "trunc_quotient \<bar>a\<bar> \<bar>b\<bar> = \<bar>a\<bar> div \<bar>b\<bar>"
    using assms by (intro trunc_quotient_exact) simp_all
  then show ?thesis using assms
    by (auto simp add: num_div_trunc_def Let_def sgn_if)
qed

section \<open>The operand stack under the instructions\<close>

lemmas stack_defs = Stack_push_def Stack_pop_def Stack_peek_def Stack_popI32_def Stack_popType_def
  assertTopIsOfType_def topIsOfType_def new_Stack_def

lemmas frame_defs = currentBlock_def set_currentBlock_def CallFrame_push_def CallFrame_pop_def
  CallFrame_peek_def CallFrame_popI32_def CallFrame_popType_def pushFrame_def popFrame_def
  breakToLabel_def finished_def new_CallFrame_def new_BlockFrame_def findMatchingEndPc_def
  findMatchingElsePc_def

lemmas instance_defs = currentFrame_def set_currentFrame_def Instance_push_def Instance_pop_def
  Instance_peek_def Instance_popI32_def Instance_breakToLabel_def Instance_findMatchingEndPc_def
  Instance_findMatchingElsePc_def callFunction_def addFunction_def new_Instance_def advance_pc_def

lemmas eval_defs = seq_def at_index_def binop_def relop_def assertLocalIndexInRange_def
  assertGlobalIndexInRange_def read_at_def

lemma Stack_popI32_snoc [simp]:
  "Stack_popI32 \<lparr>items = xs @ [I32 c]\<rparr> = Inr (I32 c, \<lparr>items = xs\<rparr>)"
  by (simp add: Stack_popI32_def Stack_popType_def assertTopIsOfType_def topIsOfType_def
      Stack_peek_def Stack_pop_def)

lemma binop_Stack:
  "binop fn Stack_runtime \<lparr>items = xs @ [I32 c1, I32 c2]\<rparr> = Inr \<lparr>items = xs @ [I32 (fn c1 c2)]\<rparr>"
proof -
  have "xs @ [I32 c1, I32 c2] = (xs @ [I32 c1]) @ [I32 c2]" by simp
  then show ?thesis
    by (simp only: binop_def Stack_runtime_def runtime.simps Stack_popI32_snoc seq_def
        sum.case prod.case val_value.simps Stack_push_def Stack.simps)
qed

lemma add_Stack:
  "eval Stack_runtime I32_add \<lparr>items = xs @ [I32 c1, I32 c2]\<rparr> = Inr \<lparr>items = xs @ [I32 (js_add c1 c2)]\<rparr>"
proof -
  have "xs @ [I32 c1, I32 c2] = (xs @ [I32 c1]) @ [I32 c2]" by simp
  then show ?thesis
    by (simp only: eval.simps Stack_runtime_def runtime.simps Stack_popI32_snoc seq_def
        sum.case prod.case val_value.simps Stack_push_def Stack.simps)
qed

lemma relop_Stack:
  "relop fn Stack_runtime \<lparr>items = xs @ [I32 c1, I32 c2]\<rparr> =
     Inr \<lparr>items = xs @ [I32 (if fn c1 c2 then Number (Fin 1) else Number (Fin 0))]\<rparr>"
  by (simp only: relop_def binop_Stack)

text \<open>The comparisons on two integers are the integer comparisons.\<close>

lemma compare_Fin:
  "num_eq (Fin a) (Fin b) = (a = b)"
  "js_lt (Number (Fin a)) (Number (Fin b)) = (a < b)"
  "js_le (Number (Fin a)) (Number (Fin b)) = (a \<le> b)"
  by (auto simp add: num_eq_def js_lt_def num_lt_def js_le_def num_le_def)

text \<open>
  Claim C10. Every binary instruction pops the top of the stack as its second operand
  \<open>c2\<close>, then the next value as its first operand \<open>c1\<close>, and pushes the result of the
  operation applied to \<open>c1\<close> and \<open>c2\<close> in this order: \<open>binop\<close> and \<open>relop\<close> do so
  for any function handed to them. On a stack that ends with the integers \<open>a\<close>
  (second from top) and \<open>b\<close> (top) of the signed 32-bit range, \<open>i32.add\<close> pushes
  \<open>a + b\<close>, \<open>i32.sub\<close> pushes \<open>a - b\<close>, second-from-top minus top, \<open>i32.mul\<close> the
  product (rounded to a double), \<open>i32.div_s\<close> with \<open>b\<close> not zero the quotient of
  \<open>a\<close> by \<open>b\<close> truncated toward zero, second-from-top divided by top, and the
  comparisons push \<open>1\<close> or \<open>0\<close> as \<open>a = b\<close>, \<open>a \<noteq> b\<close>, \<open>a < b\<close>, \<open>a > b\<close>,
  \<open>a \<le> b\<close>, \<open>a \<ge> b\<close> holds or not.
\<close>

theorem binop_operand_order:
  assumes "is_i32 a" and "is_i32 b"
  shows
    "binop fn Stack_runtime \<lparr>items = xs @ [I32 c1, I32 c2]\<rparr> = Inr \<lparr>items = xs @ [I32 (fn c1 c2)]\<rparr>
     \<and> relop rel Stack_runtime \<lparr>items = xs @ [I32 c1, I32 c2]\<rparr> =
         Inr \<lparr>items = xs @ [I32 (if rel c1 c2 then Number (Fin 1) else Number (Fin 0))]\<rparr>
     \<and> eval Stack_runtime I32_add \<lparr>items = xs @ [i32 a, i32 b]\<rparr> = Inr \<lparr>items = xs @ [i32 (a + b)]\<rparr>
     \<and> eval Stack_runtime I32_sub \<lparr>items = xs @ [i32 a, i32 b]\<rparr> = Inr \<lparr>items = xs @ [i32 (a - b)]\<rparr>
     \<and> eval Stack_runtime I32_mul \<lparr>items = xs @ [i32 a, i32 b]\<rparr> =
         Inr \<lparr>items = xs @ [I32 (Number
           (if a * b = 0 then (if a < 0 \<or> b < 0 then NegZero else Fin 0)
            else Fin (sgn (a * b) * round_double \<bar>a * b\<bar>)))]\<rparr>
     \<and> (\<bar>a * b\<bar> < 2 ^ 53 \<longrightarrow> round_double \<bar>a * b\<bar> = \<bar>a * b\<bar>)
     \<and> (b \<noteq> 0 \<longrightarrow>
          eval Stack_runtime I32_div_s \<lparr>items = xs @ [i32 a, i32 b]\<rparr> =
          Inr \<lparr>items = xs @ [I32 (Number
            (if \<bar>a\<bar> div \<bar>b\<bar> = 0 \<and> (a < 0) \<noteq> (b < 0) then NegZero
             else Fin (sgn a * sgn b * (\<bar>a\<bar> div \<bar>b\<bar>))))]\<rparr>)
     \<and> eval Stack_runtime I32_eq \<lparr>items = xs @ [i32 a, i32 b]\<rparr> =
         Inr \<lparr>items = xs @ [i32 (if a = b then 1 else 0)]\<rparr>
     \<and> eval Stack_runtime I32_ne \<lparr>items = xs @ [i32 a, i32 b]\<rparr> =
         Inr \<lparr>items = xs @ [i32 (if a = b then 0 else 1)]\<rparr>
     \<and> eval Stack_runtime I32_lt_s \<lparr>items = xs @ [i32 a, i32 b]\<rparr> =
         Inr \<lparr>items = xs @ [i32 (if a < b then 1 else 0)]\<rparr>
     \<and> eval Stack_runtime I32_gt_s \<lparr>items = xs @ [i32 a, i32 b]\<rparr> =
         Inr \<lparr>items = xs @ [i32 (if b < a then 1 else 0)]\<rparr>
     \<and> eval Stack_runtime I32_le_s \<lparr>items = xs @ [i32 a, i32 b]\<rparr> =
         Inr \<lparr>items = xs @ [i32 (if a \<le> b then 1 else 0)]\<rparr>
     \<and> eval Stack_runtime I32_ge_s \<lparr>items = xs @ [i32 a, i32 b]\<rparr> =
         Inr \<lparr>items = xs @ [i32 (if b \<le> a then 1 else 0)]\<rparr>"
proof (intro conjI impI)
  show "binop fn Stack_runtime \<lparr>items = xs @ [I32 c1, I32 c2]\<rparr> = Inr \<lparr>items = xs @ [I32 (fn c1 c2)]\<rparr>"
    by (rule binop_Stack)
  show "relop rel Stack_runtime \<lparr>items = xs @ [I32 c1, I32 c2]\<rparr> =
         Inr \<lparr>items = xs @ [I32 (if rel c1 c2 then Number (Fin 1) else Number (Fin 0))]\<rparr>"
    by (rule relop_Stack)
  show "eval Stack_runtime I32_add \<lparr>items = xs @ [i32 a, i32 b]\<rparr> = Inr \<lparr>items = xs @ [i32 (a + b)]\<rparr>"
    by (simp only: add_Stack js_add_def to_number.simps num_add_i32 [OF assms])
  show "eval Stack_runtime I32_sub \<lparr>items = xs @ [i32 a, i32 b]\<rparr> = Inr \<lparr>items = xs @ [i32 (a - b)]\<rparr>"
    by (simp only: eval.simps binop_Stack js_sub_def to_number.simps num_sub_i32 [OF assms])
  show "eval Stack_runtime I32_mul \<lparr>items = xs @ [i32 a, i32 b]\<rparr> =
         Inr \<lparr>items = xs @ [I32 (Number
           (if a * b = 0 then (if a < 0 \<or> b < 0 then NegZero else Fin 0)
            else Fin (sgn (a * b) * round_double \<bar>a * b\<bar>)))]\<rparr>"
    by (simp only: eval.simps binop_Stack js_mul_def to_number.simps num_mul_i32 [OF assms])
  show "round_double \<bar>a * b\<bar> = \<bar>a * b\<bar>" if "\<bar>a * b\<bar> < 2 ^ 53"
    using that by (rule round_double_exact)
  show "eval Stack_runtime I32_div_s \<lparr>items = xs @ [i32 a, i32 b]\<rparr> =
          Inr \<lparr>items = xs @ [I32 (Number
            (if \<bar>a\<bar> div \<bar>b\<bar> = 0 \<and> (a < 0) \<noteq> (b < 0) then NegZero
             else Fin (sgn a * sgn b * (\<bar>a\<bar> div \<bar>b\<bar>))))]\<rparr>" if "b \<noteq> 0"
    by (simp only: eval.simps binop_Stack js_div_trunc_def to_number.simps
        num_div_trunc_i32 [OF assms that])
  show "eval Stack_runtime I32_eq \<lparr>items = xs @ [i32 a, i32 b]\<rparr> =
         Inr \<lparr>items = xs @ [i32 (if a = b then 1 else 0)]\<rparr>"
    by (simp add: relop_Stack compare_Fin)
  show "eval Stack_runtime I32_ne \<lparr>items = xs @ [i32 a, i32 b]\<rparr> =
         Inr \<lparr>items = xs @ [i32 (if a = b then 0 else 1)]\<rparr>"
    by (simp add: relop_Stack compare_Fin)
  show "eval Stack_runtime I32_lt_s \<lparr>items = xs @ [i32 a, i32 b]\<rparr> =
         Inr \<lparr>items = xs @ [i32 (if a < b then 1 else 0)]\<rparr>"
    by (simp add: relop_Stack compare_Fin)
  show "eval Stack_runtime I32_gt_s \<lparr>items = xs @ [i32 a, i32 b]\<rparr> =
         Inr \<lparr>items = xs @ [i32 (if b < a then 1 else 0)]\<rparr>"
    by (simp add: relop_Stack compare_Fin)
  show "eval Stack_runtime I32_le_s \<lparr>items = xs @ [i32 a, i32 b]\<rparr> =
         Inr \<lparr>items = xs @ [i32 (if a \<le> b then 1 else 0)]\<rparr>"
    by (simp add: relop_Stack compare_Fin)
  show "eval Stack_runtime I32_ge_s \<lparr>items = xs @ [i32 a, i32 b]\<rparr> =
         Inr \<lparr>items = xs @ [i32 (if b \<le> a then 1 else 0)]\<rparr>"
    by (simp add: relop_Stack compare_Fin)
qed

text \<open>
  At the operands of the source's own checks, \<open>42\<close> under \<open>23\<close>: the difference is
  \<open>19\<close> and the quotient \<open>1\<close>, where the operands taken the other way round would give
  \<open>-19\<close> and \<open>0\<close>; a function that returns its first argument returns \<open>42\<close>.
\<close>

theorem binop_operand_order_witness:
  "is_i32 42 \<and> is_i32 23
   \<and> binop (\<lambda>c1 c2. c1) Stack_runtime \<lparr>items = [i32 42, i32 23]\<rparr> = Inr \<lparr>items = [i32 42]\<rparr>
   \<and> eval Stack_runtime I32_add \<lparr>items = [i32 42, i32 23]\<rparr> = Inr \<lparr>items = [i32 65]\<rparr>
   \<and> eval Stack_runtime I32_sub \<lparr>items = [i32 42, i32 23]\<rparr> = Inr \<lparr>items = [i32 19]\<rparr>
   \<and> eval Stack_runtime I32_mul \<lparr>items = [i32 42, i32 23]\<rparr> = Inr \<lparr>items = [i32 966]\<rparr>
   \<and> eval Stack_runtime I32_div_s \<lparr>items = [i32 42, i32 23]\<rparr> = Inr \<lparr>items = [i32 1]\<rparr>
   \<and> eval Stack_runtime I32_eq \<lparr>items = [i32 42, i32 23]\<rparr> = Inr \<lparr>items = [i32 0]\<rparr>
   \<and> eval Stack_runtime I32_ne \<lparr>items = [i32 42, i32 23]\<rparr> = Inr \<lparr>items = [i32 1]\<rparr>
   \<and> eval Stack_runtime I32_lt_s \<lparr>items = [i32 42, i32 23]\<rparr> = Inr \<lparr>items = [i32 0]\<rparr>
   \<and> eval Stack_runtime I32_gt_s \<lparr>items = [i32 42, i32 23]\<rparr> = Inr \<lparr>items = [i32 1]\<rparr>
   \<and> eval Stack_runtime I32_le_s \<lparr>items = [i32 42, i32 23]\<rparr> = Inr \<lparr>items = [i32 0]\<rparr>
   \<and> eval Stack_runtime I32_ge_s \<lparr>items = [i32 42, i32 23]\<rparr> = Inr \<lparr>items = [i32 1]\<rparr>"
proof -
  have a: "is_i32 42" and b: "is_i32 23" by (simp_all add: is_i32_def)
  show ?thesis
    using a b
      binop_operand_order [OF a b, of "\<lambda>c1 c2. c1" "[]" "Number (Fin 42)" "Number (Fin 23)"
        "\<lambda>c1 c2. True"]
    by (simp add: round_double_exact compare_Fin)
qed

text \<open>The source's own checks of \<open>i32.sub\<close> and \<open>i32.div_s\<close>, and the operands swapped.\<close>

lemma sub_div_examples:
  "run Stack_runtime new_Stack [I32_const (Fin 42), I32_const (Fin 23), I32_sub] = Inr \<lparr>items = [i32 19]\<rparr>"
  "run Stack_runtime new_Stack [I32_const (Fin 23), I32_const (Fin 42), I32_sub] = Inr \<lparr>items = [i32 (- 19)]\<rparr>"
  "run Stack_runtime new_Stack [I32_const (Fin 42), I32_const (Fin 23), I32_div_s] = Inr \<lparr>items = [i32 1]\<rparr>"
  "run Stack_runtime new_Stack [I32_const (Fin 23), I32_const (Fin 42), I32_div_s] = Inr \<lparr>items = [i32 0]\<rparr>"
  by (simp_all add: Stack_runtime_def stack_defs eval_defs js_sub_def num_sub_def num_add_def
      double_of_int_exact js_div_trunc_def num_div_trunc_def trunc_quotient_exact)

text \<open>
  The order is the same on the other receivers, whose stack members act on the current
  block of the (current) call frame.
\<close>

lemma CallFrame_popI32_snoc:
  assumes "blocks f = bs @ [b]" and "items b = xs @ [I32 c]"
  shows "CallFrame_popI32 f = Inr (I32 c, f\<lparr>blocks := bs @ [b\<lparr>items := xs\<rparr>]\<rparr>)"
  using assms by (simp add: CallFrame_popI32_def currentBlock_def set_currentBlock_def stack_defs seq_def)

lemma CallFrame_push_snoc:
  assumes "blocks f = bs @ [b]"
  shows "CallFrame_push f v = Inr (f\<lparr>blocks := bs @ [b\<lparr>items := items b @ [v]\<rparr>]\<rparr>)"
  using assms by (simp add: CallFrame_push_def currentBlock_def set_currentBlock_def stack_defs)

lemma binop_CallFrame:
  assumes "blocks f = bs @ [b]" and "items b = xs @ [I32 c1, I32 c2]"
  shows "binop fn CallFrame_runtime f = Inr (f\<lparr>blocks := bs @ [b\<lparr>items := xs @ [I32 (fn c1 c2)]\<rparr>]\<rparr>)"
proof -
  have i: "items b = (xs @ [I32 c1]) @ [I32 c2]" using assms(2) by simp
  let ?f1 = "f\<lparr>blocks := bs @ [b\<lparr>items := xs @ [I32 c1]\<rparr>]\<rparr>"
  have p2: "CallFrame_popI32 f = Inr (I32 c2, ?f1)"
    by (rule CallFrame_popI32_snoc [OF assms(1) i])
  have p1: "CallFrame_popI32 ?f1 = Inr (I32 c1, ?f1\<lparr>blocks := bs @ [b\<lparr>items := xs @ [I32 c1]\<rparr>\<lparr>items := xs\<rparr>]\<rparr>)"
    by (rule CallFrame_popI32_snoc) simp_all
  show ?thesis
    by (simp add: binop_def CallFrame_runtime_def seq_def p2 p1 CallFrame_push_snoc)
qed

lemma binop_Instance:
  assumes "callStack inst = cs @ [f]" and "blocks f = bs @ [b]" and "items b = xs @ [I32 c1, I32 c2]"
  shows "binop fn Instance_runtime inst =
    Inr (inst\<lparr>callStack := cs @ [f\<lparr>blocks := bs @ [b\<lparr>items := xs @ [I32 (fn c1 c2)]\<rparr>]\<rparr>]\<rparr>)"
proof -
  have i: "items b = (xs @ [I32 c1]) @ [I32 c2]" using assms(3) by simp
  let ?f1 = "f\<lparr>blocks := bs @ [b\<lparr>items := xs @ [I32 c1]\<rparr>]\<rparr>"
  have p2: "CallFrame_popI32 f = Inr (I32 c2, ?f1)"
    by (rule CallFrame_popI32_snoc [OF assms(2) i])
  have p1: "CallFrame_popI32 ?f1 = Inr (I32 c1, ?f1\<lparr>blocks := bs @ [b\<lparr>items := xs @ [I32 c1]\<rparr>\<lparr>items := xs\<rparr>]\<rparr>)"
    by (rule CallFrame_popI32_snoc) simp_all
  show ?thesis
    using assms(1)
    by (simp add: binop_def Instance_runtime_def seq_def Instance_popI32_def Instance_push_def
        currentFrame_def set_currentFrame_def p2 p1 CallFrame_push_snoc)
qed

section \<open>Arithmetic on 32-bit operands\<close>

text \<open>
  Claim C5, as the specification states it, fails: \<open>i32.add\<close> on \<open>2147483647\<close> and
  \<open>1\<close> pushes \<open>2147483648\<close>, which is outside the signed 32-bit range; the wrapped
  sum would be \<open>-2147483648\<close>.
\<close>

theorem i32_add_wraparound_counterexample:
  "is_i32 2147483647 \<and> is_i32 1
   \<and> eval Stack_runtime I32_add \<lparr>items = [i32 2147483647, i32 1]\<rparr> = Inr \<lparr>items = [i32 2147483648]\<rparr>
   \<and> eval Stack_runtime I32_add \<lparr>items = [i32 2147483647, i32 1]\<rparr>
       \<noteq> Inr \<lparr>items = [i32 (wrap32 (2147483647 + 1))]\<rparr>"
  using add_Stack [of "[]" "Number (Fin 2147483647)" "Number (Fin 1)"]
  by (simp add: is_i32_def wrap32_def js_add_def num_add_def double_of_int_exact)

text \<open>
  Claim C5, amended. On operands in the signed 32-bit range no result is reduced modulo
  \<open>2 ^ 32\<close>: \<open>i32.add\<close> and \<open>i32.sub\<close> push the exact sum and difference;
  \<open>i32.mul\<close> pushes the exact product rounded to the nearest double, which is the
  product itself when its magnitude is below \<open>2 ^ 53\<close> (and \<open>-0\<close> for a zero product
  with a negative operand); \<open>i32.div_s\<close> with a non-zero divisor pushes the quotient
  truncated toward zero (\<open>-0\<close> when that is zero and the signs of the operands differ).
\<close>

theorem i32_arithmetic_unwrapped:
  assumes "is_i32 a" and "is_i32 b"
  shows
    "eval Stack_runtime I32_add \<lparr>items = xs @ [i32 a, i32 b]\<rparr> = Inr \<lparr>items = xs @ [i32 (a + b)]\<rparr>
     \<and> eval Stack_runtime I32_sub \<lparr>items = xs @ [i32 a, i32 b]\<rparr> = Inr \<lparr>items = xs @ [i32 (a - b)]\<rparr>
     \<and> eval Stack_runtime I32_mul \<lparr>items = xs @ [i32 a, i32 b]\<rparr> =
         Inr \<lparr>items = xs @ [I32 (Number
           (if a * b = 0 then (if a < 0 \<or> b < 0 then NegZero else Fin 0)
            else Fin (sgn (a * b) * round_double \<bar>a * b\<bar>)))]\<rparr>
     \<and> (\<bar>a * b\<bar> < 2 ^ 53 \<longrightarrow> round_double \<bar>a * b\<bar> = \<bar>a * b\<bar>)
     \<and> (b \<noteq> 0 \<longrightarrow>
          eval Stack_runtime I32_div_s \<lparr>items = xs @ [i32 a, i32 b]\<rparr> =
          Inr \<lparr>items = xs @ [I32 (Number
            (if \<bar>a\<bar> div \<bar>b\<bar> = 0 \<and> (a < 0) \<noteq> (b < 0) then NegZero
             else Fin (sgn a * sgn b * (\<bar>a\<bar> div \<bar>b\<bar>))))]\<rparr>)"
proof (intro conjI impI)
  show "eval Stack_runtime I32_add \<lparr>items = xs @ [i32 a, i32 b]\<rparr> = Inr \<lparr>items = xs @ [i32 (a + b)]\<rparr>"
    by (simp only: add_Stack js_add_def to_number.simps num_add_i32 [OF assms])
  show "eval Stack_runtime I32_sub \<lparr>items = xs @ [i32 a, i32 b]\<rparr> = Inr \<lparr>items = xs @ [i32 (a - b)]\<rparr>"
    by (simp only: eval.simps binop_Stack js_sub_def to_number.simps num_sub_i32 [OF assms])
  show "eval Stack_runtime I32_mul \<lparr>items = xs @ [i32 a, i32 b]\<rparr> =
         Inr \<lparr>items = xs @ [I32 (Number
           (if a * b = 0 then (if a < 0 \<or> b < 0 then NegZero else Fin 0)
            else Fin (sgn (a * b) * round_double \<bar>a * b\<bar>)))]\<rparr>"
    by (simp only: eval.simps binop_Stack js_mul_def to_number.simps num_mul_i32 [OF assms])
  show "round_double \<bar>a * b\<bar> = \<bar>a * b\<bar>" if "\<bar>a * b\<bar> < 2 ^ 53"
    using that by (rule round_double_exact)
  show "eval Stack_runtime I32_div_s \<lparr>items = xs @ [i32 a, i32 b]\<rparr> =
          Inr \<lparr>items = xs @ [I32 (Number
            (if \<bar>a\<bar> div \<bar>b\<bar> = 0 \<and> (a < 0) \<noteq> (b < 0) then NegZero
             else Fin (sgn a * sgn b * (\<bar>a\<bar> div \<bar>b\<bar>))))]\<rparr>" if "b \<noteq> 0"
    by (simp only: eval.simps binop_Stack js_div_trunc_def to_number.simps
        num_div_trunc_i32 [OF assms that])
qed

theorem i32_arithmetic_unwrapped_witness:
  "is_i32 2147483647 \<and> is_i32 (- 3)
   \<and> eval Stack_runtime I32_add \<lparr>items = [i32 2147483647, i32 (- 3)]\<rparr> = Inr \<lparr>items = [i32 2147483644]\<rparr>
   \<and> eval Stack_runtime I32_sub \<lparr>items = [i32 2147483647, i32 (- 3)]\<rparr> = Inr \<lparr>items = [i32 2147483650]\<rparr>
   \<and> eval Stack_runtime I32_mul \<lparr>items = [i32 2147483647, i32 (- 3)]\<rparr> = Inr \<lparr>items = [i32 (- 6442450941)]\<rparr>
   \<and> eval Stack_runtime I32_div_s \<lparr>items = [i32 2147483647, i32 (- 3)]\<rparr> = Inr \<lparr>items = [i32 (- 715827882)]\<rparr>"
proof -
  have a: "is_i32 2147483647" and b: "is_i32 (- 3)" by (simp_all add: is_i32_def)
  show ?thesis
    using a b i32_arithmetic_unwrapped [OF a b, of "[]"]
    by (simp add: round_double_exact)
qed

section \<open>Division by zero\<close>

text \<open>
  Claim C8, as the specification states it, fails: \<open>i32.div_s\<close> with dividend \<open>7\<close>
  and divisor \<open>0\<close> raises nothing and pushes \<open>Infinity\<close>.
\<close>

theorem div_s_by_zero_counterexample:
  "eval Stack_runtime I32_div_s \<lparr>items = [i32 7, i32 0]\<rparr> = Inr \<lparr>items = [I32 (Number PosInf)]\<rparr>"
  using binop_Stack [of js_div_trunc "[]" "Number (Fin 7)" "Number (Fin 0)"]
  by (simp add: js_div_trunc_def num_div_trunc_def)

text \<open>
  Claim C8, amended. \<open>i32.div_s\<close> with a zero divisor raises no error: it pops both
  operands and pushes the host's result, \<open>Infinity\<close> for a positive dividend,
  \<open>-Infinity\<close> for a negative one and NaN for a zero one.
\<close>

theorem div_s_by_zero:
  "eval Stack_runtime I32_div_s \<lparr>items = xs @ [i32 a, i32 0]\<rparr> =
     Inr \<lparr>items = xs @ [I32 (Number (if a = 0 then NaN else if a < 0 then NegInf else PosInf))]\<rparr>"
  by (simp only: eval.simps binop_Stack) (simp add: js_div_trunc_def num_div_trunc_def)

section \<open>Popping and peeking an empty stack\<close>

text \<open>
  Claim C4, as the specification states it, fails: on an empty stack \<open>pop\<close> and
  \<open>peek\<close> return \<open>undefined\<close>, on the bare stack as on a call frame whose current
  block is empty.
\<close>

theorem pop_peek_empty_counterexample:
  "Stack_pop new_Stack = (Undefined, new_Stack)
   \<and> Stack_peek new_Stack = Undefined
   \<and> vm_pop Stack_runtime new_Stack = Inr (Undefined, new_Stack)
   \<and> vm_peek Stack_runtime new_Stack = Inr Undefined
   \<and> CallFrame_pop (new_CallFrame [] [] []) = Inr (Undefined, new_CallFrame [] [] [])
   \<and> CallFrame_peek (new_CallFrame [] [] []) = Inr Undefined"
  by (simp add: stack_defs frame_defs Stack_runtime_def)

text \<open>
  Claim C4, amended. On an empty stack \<open>pop\<close> returns \<open>undefined\<close> and leaves the
  stack empty, and \<open>peek\<close> returns \<open>undefined\<close>; neither fails. Only the typed pop
  fails there, with the error of \<open>assertTopIsOfType\<close>.
\<close>

theorem pop_peek_empty:
  assumes "items s = []"
  shows "Stack_pop s = (Undefined, s) \<and> Stack_peek s = Undefined
         \<and> Stack_popType s T = Inl (Expected_on_top T Undefined)
         \<and> Stack_popI32 s = Inl (Expected_on_top I32_class Undefined)"
  using assms by (cases T) (simp add: stack_defs)

theorem pop_peek_empty_witness:
  "items new_Stack = []
   \<and> Stack_pop new_Stack = (Undefined, new_Stack) \<and> Stack_peek new_Stack = Undefined
   \<and> Stack_popType new_Stack I32_class = Inl (Expected_on_top I32_class Undefined)
   \<and> Stack_popI32 new_Stack = Inl (Expected_on_top I32_class Undefined)"
proof -
  have e: "items new_Stack = []" by (simp add: new_Stack_def)
  show ?thesis using e pop_peek_empty [OF e, of I32_class] by simp
qed

section \<open>Return from a call\<close>

text \<open>The guard of the transfer loop is false for every block, so the loop moves nothing.\<close>

lemma return_values_moves_nothing:
  "currentBlock frame = Some b \<Longrightarrow> return_values frame inst = Inr inst"
  by (subst return_values.simps) (simp add: BlockFrame_size_def js_lt_def num_lt_def)

text \<open>
  Claim C1. When a step finishes the active frame, the instance pops it, and with a
  caller left the values on the finished frame's current block are to be moved to the
  caller's current block; the source's test \<open>call fn returns instruction\<close> expects
  the caller's stack to be \<open>[15]\<close> after \<open>fn1\<close> is called and stepped four times.
  On the code the caller's stack is empty then: the loop that moves the values is guarded
  by \<open>frame.currentBlock.size > 0\<close>, and a block has no \<open>size\<close>.
\<close>

theorem call_return_scenario:
  "seq (callFunction two_functions 0) (Instance_steps 3) =
     Inr \<lparr>callStack =
            [\<lparr>blocks = [\<lparr>items = [], type = [[], []], breakTargetPc = 1\<rparr>],
              instructions = [I32_const (Fin 10), Call 1], locals = [], pc = 2\<rparr>,
             \<lparr>blocks = [\<lparr>items = [i32 10, i32 5], type = [[I32_class], [I32_class]], breakTargetPc = 1\<rparr>],
              instructions = [I32_const (Fin 5), I32_add], locals = [], pc = 1\<rparr>],
          functions = [fn1, fn2], globals = []\<rparr>
   \<and> seq (callFunction two_functions 0) (Instance_steps 4) =
     Inr \<lparr>callStack =
            [\<lparr>blocks = [\<lparr>items = [], type = [[], []], breakTargetPc = 1\<rparr>],
              instructions = [I32_const (Fin 10), Call 1], locals = [], pc = 2\<rparr>],
          functions = [fn1, fn2], globals = []\<rparr>"
  by (simp add: two_functions_def fn1_def fn2_def instance_defs frame_defs eval_defs stack_defs
      Instance_step_def Instance_runtime_def numeral_eq_Suc return_values_moves_nothing
      js_add_def num_add_def double_of_int_exact)

section \<open>Calling a function\<close>

text \<open>
  Claim C6, as the specification states it, fails: an index outside the function table
  is not validated. The table read yields \<open>undefined\<close>, and reading its
  \<open>instructions\<close> raises the host's \<open>TypeError\<close>, the same error a call with
  parameters raises on an empty call stack; no error of the code names a function index.
\<close>

theorem callFunction_out_of_range_counterexample:
  "callFunction two_functions 2 = Inl TypeError \<and> callFunction two_functions (- 1) = Inl TypeError
   \<and> callFunction new_Instance 0 = Inl TypeError"
  by (simp add: two_functions_def instance_defs at_index_def)

text \<open>
  Claim C6, amended. For every index that is negative or not below the number of
  registered functions, \<open>callFunction(index)\<close> fails with the host's \<open>TypeError\<close>.
\<close>

theorem callFunction_out_of_range:
  assumes "index < 0 \<or> int (length (functions inst)) \<le> index"
  shows "callFunction inst index = Inl TypeError"
  using assms by (auto simp add: callFunction_def at_index_def)

theorem callFunction_out_of_range_witness:
  "(2 < (0::int) \<or> int (length (functions two_functions)) \<le> 2)
   \<and> callFunction two_functions 2 = Inl TypeError"
proof -
  have h: "2 < (0::int) \<or> int (length (functions two_functions)) \<le> 2"
    by (simp add: two_functions_def addFunction_def new_Instance_def)
  show ?thesis using h callFunction_out_of_range [OF h] by simp
qed

lemma pass_args_moves:
  "pass_args (length vs) (Some (c\<lparr>blocks := bs @ [b\<lparr>items := xs @ vs\<rparr>]\<rparr>))
     (d\<lparr>blocks := ds @ [e\<lparr>items := ys\<rparr>]\<rparr>) =
   Inr (Some (c\<lparr>blocks := bs @ [b\<lparr>items := xs\<rparr>]\<rparr>), d\<lparr>blocks := ds @ [e\<lparr>items := ys @ rev vs\<rparr>]\<rparr>)"
proof (induction vs arbitrary: ys rule: rev_induct)
  case Nil
  show ?case by simp
next
  case (snoc v vs)
  have pop: "CallFrame_pop (c\<lparr>blocks := bs @ [b\<lparr>items := xs @ vs @ [v]\<rparr>]\<rparr>) =
      Inr (v, c\<lparr>blocks := bs @ [b\<lparr>items := xs @ vs\<rparr>]\<rparr>)"
    by (simp add: CallFrame_pop_def currentBlock_def set_currentBlock_def Stack_pop_def
        butlast_append)
  have push: "CallFrame_push (d\<lparr>blocks := ds @ [e\<lparr>items := ys\<rparr>]\<rparr>) v =
      Inr (d\<lparr>blocks := ds @ [e\<lparr>items := ys @ [v]\<rparr>]\<rparr>)"
    by (simp add: CallFrame_push_def currentBlock_def set_currentBlock_def Stack_push_def)
  show ?case
    using snoc [of "ys @ [v]"] by (simp add: pop push seq_def)
qed

text \<open>
  With fewer values on the caller's block than iterations, the remaining pops yield
  \<open>undefined\<close>, which is pushed like any value.
\<close>

lemma pass_args_general:
  "pass_args n (Some (c\<lparr>blocks := bs @ [b\<lparr>items := zs\<rparr>]\<rparr>)) (d\<lparr>blocks := ds @ [e\<lparr>items := ys\<rparr>]\<rparr>) =
   Inr (Some (c\<lparr>blocks := bs @ [b\<lparr>items := take (length zs - n) zs\<rparr>]\<rparr>),
        d\<lparr>blocks := ds @ [e\<lparr>items := ys @ rev (drop (length zs - n) zs) @ replicate (n - length zs) Undefined\<rparr>]\<rparr>)"
proof (induction n arbitrary: zs ys)
  case 0
  show ?case by simp
next
  case (Suc n)
  have push: "CallFrame_push (d\<lparr>blocks := ds @ [e\<lparr>items := ys\<rparr>]\<rparr>) v =
      Inr (d\<lparr>blocks := ds @ [e\<lparr>items := ys @ [v]\<rparr>]\<rparr>)" for v
    by (simp add: CallFrame_push_def currentBlock_def set_currentBlock_def Stack_push_def)
  show ?case
  proof (cases zs rule: rev_cases)
    case Nil
    have pop: "CallFrame_pop (c\<lparr>blocks := bs @ [b\<lparr>items := []\<rparr>]\<rparr>) =
      Inr (Undefined, c\<lparr>blocks := bs @ [b\<lparr>items := []\<rparr>]\<rparr>)"
      by (simp add: CallFrame_pop_def currentBlock_def set_currentBlock_def Stack_pop_def)
    show ?thesis
      using Suc [of "[]" "ys @ [Undefined]"] by (simp add: Nil pop push seq_def replicate_append_same)
  next
    case (snoc zs' v)
    have pop: "CallFrame_pop (c\<lparr>blocks := bs @ [b\<lparr>items := zs' @ [v]\<rparr>]\<rparr>) =
      Inr (v, c\<lparr>blocks := bs @ [b\<lparr>items := zs'\<rparr>]\<rparr>)"
      by (simp add: CallFrame_pop_def currentBlock_def set_currentBlock_def Stack_pop_def)
    show ?thesis
      using Suc [of zs' "ys @ [v]"] by (simp add: snoc pop push seq_def)
  qed
qed

text \<open>
  Claim C2, as the specification states it, fails: when \<open>fn1\<close> calls \<open>fn2\<close>, which
  has one parameter, the argument \<open>10\<close> goes from the caller's operand stack to the
  operand stack of the called frame; the locals of the called frame stay empty.
\<close>

theorem callFunction_locals_counterexample:
  "seq (callFunction two_functions 0) Instance_step = Inr before_call
   \<and> callFunction before_call 1 =
     Inr \<lparr>callStack =
            [\<lparr>blocks = [\<lparr>items = [], type = [[], []], breakTargetPc = 1\<rparr>],
              instructions = [I32_const (Fin 10), Call 1], locals = [], pc = 1\<rparr>,
             \<lparr>blocks = [\<lparr>items = [i32 10], type = [[I32_class], [I32_class]], breakTargetPc = 1\<rparr>],
              instructions = [I32_const (Fin 5), I32_add], locals = [], pc = 0\<rparr>],
          functions = [fn1, fn2], globals = []\<rparr>"
  by (simp add: before_call_def two_functions_def fn1_def fn2_def instance_defs frame_defs
      eval_defs stack_defs Instance_step_def Instance_runtime_def)

text \<open>
  What the call does when the caller's current block ends with as many values as the
  function has parameters.
\<close>

lemma callFunction_moves_arguments:
  assumes "at_index (functions inst) index = Some fn"
    and "callStack inst = cs @ [caller]"
    and "blocks caller = bs @ [b]"
    and "items b = xs @ vs"
    and "length vs = length (args fn)"
  shows "callFunction inst index =
     Inr (inst\<lparr>callStack := cs @
       [caller\<lparr>blocks := bs @ [b\<lparr>items := xs\<rparr>]\<rparr>,
        \<lparr>blocks = [\<lparr>items = rev vs, type = [args fn, returns fn],
                    breakTargetPc = int (length (Func.instructions fn)) - 1\<rparr>],
         instructions = Func.instructions fn, locals = map new (Func.locals fn), pc = 0\<rparr>]\<rparr>)"
proof -
  let ?d = "new_CallFrame (Func.instructions fn) (map new (Func.locals fn)) [args fn, returns fn]"
  let ?e = "new_BlockFrame [args fn, returns fn] (int (length (Func.instructions fn)) - 1)"
  have caller: "caller = caller\<lparr>blocks := bs @ [b\<lparr>items := xs @ vs\<rparr>]\<rparr>"
    using assms(3,4) by simp
  have d: "?d = ?d\<lparr>blocks := [] @ [?e\<lparr>items := []\<rparr>]\<rparr>"
    by (simp add: new_CallFrame_def new_BlockFrame_def)
  have "pass_args (length (args fn)) (Some caller) ?d =
      Inr (Some (caller\<lparr>blocks := bs @ [b\<lparr>items := xs\<rparr>]\<rparr>), ?d\<lparr>blocks := [] @ [?e\<lparr>items := [] @ rev vs\<rparr>]\<rparr>)"
    apply (subst caller, subst d)
    apply (simp only: assms(5) [symmetric] pass_args_moves)
    done
  then show ?thesis
    using assms(1,2)
    by (simp add: callFunction_def currentFrame_def seq_def new_CallFrame_def new_BlockFrame_def)
qed

text \<open>
  Claim C2, amended. For a registered function with \<open>n\<close> declared parameters, called
  while the calling frame's current block holds at least \<open>n\<close> values,
  \<open>callFunction(index)\<close> pops the top \<open>n\<close> values from that block and pushes them on
  the root block of the called frame, whose operand stack then holds exactly those \<open>n\<close>
  values. The locals of the called frame receive no argument: they are one fresh box per
  declared local type. (The order in which several arguments arrive is not part of the
  statement.)
\<close>

theorem callFunction_passes_arguments:
  assumes "at_index (functions inst) index = Some fn"
    and "callStack inst = cs @ [caller]"
    and "blocks caller = bs @ [b]"
    and "items b = xs @ vs"
    and "length vs = length (args fn)"
  shows "\<exists>ys. callFunction inst index =
     Inr (inst\<lparr>callStack := cs @
       [caller\<lparr>blocks := bs @ [b\<lparr>items := xs\<rparr>]\<rparr>,
        \<lparr>blocks = [\<lparr>items = ys, type = [args fn, returns fn],
                    breakTargetPc = int (length (Func.instructions fn)) - 1\<rparr>],
         instructions = Func.instructions fn, locals = map new (Func.locals fn), pc = 0\<rparr>]\<rparr>)
     \<and> mset ys = mset vs"
proof (intro exI conjI)
  show "callFunction inst index =
     Inr (inst\<lparr>callStack := cs @
       [caller\<lparr>blocks := bs @ [b\<lparr>items := xs\<rparr>]\<rparr>,
        \<lparr>blocks = [\<lparr>items = rev vs, type = [args fn, returns fn],
                    breakTargetPc = int (length (Func.instructions fn)) - 1\<rparr>],
         instructions = Func.instructions fn, locals = map new (Func.locals fn), pc = 0\<rparr>]\<rparr>)"
    using assms by (rule callFunction_moves_arguments)
  show "mset (rev vs) = mset vs" by simp
qed

theorem callFunction_passes_arguments_witness:
  "at_index (functions two_args_instance) 0 = Some fn_two_args
   \<and> length [i32 1, i32 2] = length (args fn_two_args)
   \<and> (\<exists>ys. callFunction two_args_instance 0 =
     Inr \<lparr>callStack =
            [\<lparr>blocks = [\<lparr>items = [i32 7], type = [[], []], breakTargetPc = 0\<rparr>],
              instructions = [Call 0], locals = [], pc = 0\<rparr>,
             \<lparr>blocks = [\<lparr>items = ys, type = [[I32_class, I32_class], [I32_class]],
                         breakTargetPc = 0\<rparr>],
              instructions = [I32_sub], locals = [I32 Undef], pc = 0\<rparr>],
          functions = [fn_two_args], globals = []\<rparr>
      \<and> mset ys = mset [i32 1, i32 2])"
proof -
  let ?caller = "\<lparr>blocks = [\<lparr>items = [i32 7, i32 1, i32 2], type = [[], []], breakTargetPc = 0\<rparr>],
          instructions = [Call 0], locals = [], pc = 0\<rparr>"
  let ?b = "\<lparr>items = [i32 7, i32 1, i32 2], type = [[], []], breakTargetPc = 0\<rparr>"
  have f: "at_index (functions two_args_instance) 0 = Some fn_two_args"
    by (simp add: two_args_instance_def at_index_def)
  have c: "callStack two_args_instance = [] @ [?caller]"
    by (simp add: two_args_instance_def)
  have b: "blocks ?caller = [] @ [?b]" by simp
  have i: "items ?b = [i32 7] @ [i32 1, i32 2]" by simp
  have l: "length [i32 1, i32 2] = length (args fn_two_args)" by (simp add: fn_two_args_def)
  show ?thesis
    using f l callFunction_passes_arguments [OF f c b i l]
    by (simp add: two_args_instance_def fn_two_args_def)
qed

section \<open>Conditional branch\<close>

text \<open>
  \<open>br_if\<close> compares the popped box itself, not its \<open>value\<close>, with \<open>0\<close>; a box is
  never equal to a number, so the instruction branches whatever the condition holds.
\<close>

lemma br_if_ignores_condition:
  assumes "blocks f = bs @ [b]" and "items b = xs @ [I32 c]"
  shows "eval CallFrame_runtime (Br_if labelidx) f =
         breakToLabel (f\<lparr>blocks := bs @ [b\<lparr>items := xs\<rparr>]\<rparr>) labelidx"
  using assms
  by (simp add: CallFrame_runtime_def CallFrame_popI32_def currentBlock_def set_currentBlock_def
      stack_defs seq_def)

text \<open>
  Claim C3. \<open>br_if(labelIndex)\<close> pops an i32 condition, branches as \<open>br(labelIndex)\<close>
  when the condition is non-zero and falls through when it is zero. On the code the
  program of the source's test \<open>br_if works\<close>, run with the condition \<open>0\<close>, branches:
  after the fourth step the block is popped and the pc is \<open>7\<close>, behind the \<open>end\<close>,
  where falling through would keep both blocks and continue at \<open>4\<close>.
\<close>

theorem br_if_zero_scenario:
  "CallFrame_steps 3 (new_CallFrame br_if_zero_program [] []) =
     Inr \<lparr>blocks = [\<lparr>items = [i32 5], type = [], breakTargetPc = 9\<rparr>,
                    \<lparr>items = [i32 0], type = [], breakTargetPc = 6\<rparr>],
          instructions = br_if_zero_program, locals = [], pc = 3\<rparr>
   \<and> CallFrame_steps 4 (new_CallFrame br_if_zero_program [] []) =
     Inr \<lparr>blocks = [\<lparr>items = [i32 5], type = [], breakTargetPc = 9\<rparr>],
          instructions = br_if_zero_program, locals = [], pc = 7\<rparr>"
  by (simp add: br_if_zero_program_def numeral_eq_Suc CallFrame_step_def CallFrame_runtime_def
      frame_defs stack_defs eval_defs scan_end.simps)

section \<open>Index validation of locals and globals\<close>

text \<open>
  On a call frame the three local instructions reject an index outside the locals with
  the local-index error; on an instance \<open>global.set\<close> rejects an index outside the
  globals with the global-index error, and \<open>global.get\<close> rejects it with the
  local-index error, since it calls \<open>assertLocalIndexInRange\<close>.
\<close>

lemma global_get_invalid_index:
  assumes "index < 0 \<or> int (length (globals inst)) \<le> index"
  shows "eval Instance_runtime (Global_get index) inst = Inl (Invalid_local_index index)"
  using assms by (auto simp add: Instance_runtime_def assertLocalIndexInRange_def seq_def)

lemma global_set_invalid_index:
  assumes "index < 0 \<or> int (length (globals inst)) \<le> index"
  shows "eval Instance_runtime (Global_set index) inst = Inl (Invalid_global_index index)"
  using assms by (auto simp add: Instance_runtime_def assertGlobalIndexInRange_def seq_def)

lemma local_invalid_index:
  assumes "index < 0 \<or> int (length (CallFrame.locals f)) \<le> index"
  shows "eval CallFrame_runtime (Local_get index) f = Inl (Invalid_local_index index)"
    and "eval CallFrame_runtime (Local_set index) f = Inl (Invalid_local_index index)"
    and "eval CallFrame_runtime (Local_tee index) f = Inl (Invalid_local_index index)"
  using assms by (auto simp add: CallFrame_runtime_def assertLocalIndexInRange_def seq_def)

text \<open>
  An instance has no \<open>locals\<close>: run by \<open>Instance.step\<close>, a local instruction
  fails on every index, with the local-index error only for a negative one.
\<close>

lemma instance_has_no_locals:
  "eval Instance_runtime (Local_get index) inst =
     Inl (if index < 0 then Invalid_local_index index else TypeError)"
  "eval Instance_runtime (Local_set index) inst =
     Inl (if index < 0 then Invalid_local_index index else TypeError)"
  "eval Instance_runtime (Local_tee index) inst =
     Inl (if index < 0 then Invalid_local_index index else TypeError)"
  by (simp_all add: Instance_runtime_def seq_def assertLocalIndexInRange_def)

text \<open>
  Claim C7. The local instructions validate their index against the locals and fail with
  the local-index error, the global instructions against the globals and fail with the
  global-index error. On the code \<open>global.get(1)\<close> on an instance with one global
  fails with the error \<open>Invalid local index: 1\<close>; \<open>global.set(1)\<close> on the same
  globals fails with \<open>Invalid global index: 1\<close>.
\<close>

theorem global_get_out_of_range_scenario:
  "seq (callFunction global_get_instance 0) Instance_step = Inl (Invalid_local_index 1)
   \<and> seq (callFunction global_set_instance 0) (Instance_steps 2) = Inl (Invalid_global_index 1)"
  by (simp add: global_get_instance_def global_set_instance_def numeral_eq_Suc Instance_step_def
      Instance_runtime_def instance_defs frame_defs stack_defs eval_defs)

section \<open>A loop that branches to its own header\<close>

lemma CallFrame_steps_add:
  "CallFrame_steps (m + n) f = seq (CallFrame_steps m f) (CallFrame_steps n)"
proof (induction m arbitrary: f)
  case 0
  show ?case by (simp add: seq_def)
next
  case (Suc m)
  show ?case by (cases "CallFrame_step f") (simp_all add: seq_def Suc)
qed

lemma step_Loop:
  assumes "at_index (CallFrame.instructions f) (pc f) = Some Loop"
  shows "CallFrame_step f = Inr (f\<lparr>blocks := blocks f @ [new_BlockFrame [] (pc f - 1)], pc := pc f + 1\<rparr>)"
  using assms by (simp add: CallFrame_step_def CallFrame_runtime_def seq_def pushFrame_def)

lemma step_Br_0_after_Loop:
  assumes "at_index (CallFrame.instructions f) (pc f + 1) = Some (Br 0)"
  shows "CallFrame_step (f\<lparr>blocks := blocks f @ [new_BlockFrame [] (pc f - 1)], pc := pc f + 1\<rparr>) = Inr f"
  using assms
  by (simp add: CallFrame_step_def CallFrame_runtime_def seq_def breakToLabel_def popFrame_def
      new_BlockFrame_def)

lemma loop_br_two_steps:
  assumes "at_index (CallFrame.instructions f) (pc f) = Some Loop"
    and "at_index (CallFrame.instructions f) (pc f + 1) = Some (Br 0)"
  shows "CallFrame_steps 2 f = Inr f"
  using assms by (simp add: numeral_2_eq_2 seq_def step_Loop step_Br_0_after_Loop)

lemma loop_br_even_steps:
  assumes "at_index (CallFrame.instructions f) (pc f) = Some Loop"
    and "at_index (CallFrame.instructions f) (pc f + 1) = Some (Br 0)"
  shows "CallFrame_steps (2 * n) f = Inr f"
proof (induction n)
  case 0
  show ?case by simp
next
  case (Suc n)
  have "CallFrame_steps (2 * Suc n) f = CallFrame_steps (2 + 2 * n) f" by simp
  also have "\<dots> = seq (CallFrame_steps 2 f) (CallFrame_steps (2 * n))" by (rule CallFrame_steps_add)
  also have "\<dots> = Inr f" by (simp add: loop_br_two_steps [OF assms] seq_def Suc)
  finally show ?case .
qed

text \<open>
  The block instructions need \<open>pushFrame\<close> and \<open>popFrame\<close>, which a call frame
  has and an instance has not: run by \<open>Instance.step\<close> they fail. The loop below is
  stepped by \<open>CallFrame.step\<close>, as in the source's test \<open>loop breaks to the top\<close>.
\<close>

lemma scan_end_error: "scan_end ins r p = Inl e \<Longrightarrow> e = TypeError"
proof (induction ins r p rule: scan_end.induct)
  case (1 ins r p)
  from "1.prems" show ?case
    by (subst (asm) scan_end.simps) (auto split: if_splits option.splits intro: "1.IH")
qed

lemma instance_has_no_block_members:
  "eval Instance_runtime Block inst = Inl TypeError"
  "eval Instance_runtime Loop inst = Inl TypeError"
  "eval Instance_runtime End inst = Inl TypeError"
  "eval Instance_runtime Else inst = Inl TypeError"
  by (auto simp add: Instance_runtime_def seq_def Instance_findMatchingEndPc_def
      findMatchingEndPc_def split: sum.splits option.splits dest: scan_end_error)

text \<open>A frame that steps to a second frame and back, neither finished, never stops running.\<close>

lemma run_two_cycle_diverges:
  assumes "\<not> finished f" "\<not> finished g" "CallFrame_step f = Inr g" "CallFrame_step g = Inr f"
  shows "CallFrame_run f = None"
proof -
  have "x \<noteq> f \<and> x \<noteq> g" if "CallFrame_run x = Some y" for x y
  proof (rule CallFrame_run.raw_induct [where P = "\<lambda>x y. x \<noteq> f \<and> x \<noteq> g", OF _ that])
    fix run :: "CallFrame \<Rightarrow> (error + CallFrame) option" and x y
    assume IH: "\<And>x y. run x = Some y \<Longrightarrow> x \<noteq> f \<and> x \<noteq> g"
      and step: "(if finished x then Some (Inr x)
          else case CallFrame_step x of Inl e \<Rightarrow> Some (Inl e) | Inr f1 \<Rightarrow> run f1) = Some y"
    show "x \<noteq> f \<and> x \<noteq> g"
    proof (intro conjI notI)
      assume "x = f"
      with step assms have "run g = Some y" by simp
      then show False using IH by blast
    next
      assume "x = g"
      with step assms have "run f = Some y" by simp
      then show False using IH by blast
    qed
  qed
  then show ?thesis by (cases "CallFrame_run f") auto
qed

text \<open>
  Claim C9. In a call frame whose instructions hold \<open>loop\<close> at position \<open>p\<close>
  followed by \<open>br(0)\<close>, stepping from \<open>p\<close> alternates between two states for ever:
  \<open>loop\<close> pushes a block whose branch target is \<open>p - 1\<close> and moves to \<open>p + 1\<close>, and
  the step that executes \<open>br(0)\<close> pops that block and sets the pc back to \<open>p\<close>. After
  any number of steps the pc is \<open>p\<close> or \<open>p + 1\<close> and the frame is not finished, so
  execution never reaches the \<open>end\<close> behind the branch, and \<open>run\<close> never returns.
\<close>

theorem loop_br_never_advances:
  assumes "at_index (CallFrame.instructions f) (pc f) = Some Loop"
    and "at_index (CallFrame.instructions f) (pc f + 1) = Some (Br 0)"
  shows "CallFrame_steps (2 * n) f = Inr f
     \<and> CallFrame_steps (2 * n + 1) f =
         Inr (f\<lparr>blocks := blocks f @ [new_BlockFrame [] (pc f - 1)], pc := pc f + 1\<rparr>)
     \<and> CallFrame_step (f\<lparr>blocks := blocks f @ [new_BlockFrame [] (pc f - 1)], pc := pc f + 1\<rparr>) = Inr f
     \<and> (\<exists>f'. CallFrame_steps k f = Inr f' \<and> pc f \<le> pc f' \<and> pc f' \<le> pc f + 1 \<and> \<not> finished f')
     \<and> CallFrame_run f = None"
proof (intro conjI)
  let ?g = "f\<lparr>blocks := blocks f @ [new_BlockFrame [] (pc f - 1)], pc := pc f + 1\<rparr>"
  have even: "CallFrame_steps (2 * m) f = Inr f" for m
    by (rule loop_br_even_steps [OF assms])
  have odd: "CallFrame_steps (2 * m + 1) f = Inr ?g" for m
  proof -
    have "CallFrame_steps (2 * m + 1) f = seq (CallFrame_steps (2 * m) f) (CallFrame_steps 1)"
      by (rule CallFrame_steps_add)
    also have "\<dots> = Inr ?g"
      by (simp add: even seq_def step_Loop [OF assms(1)])
    finally show ?thesis .
  qed
  show "CallFrame_steps (2 * n) f = Inr f" by (rule even)
  show "CallFrame_steps (2 * n + 1) f = Inr ?g" by (rule odd)
  show "CallFrame_step ?g = Inr f" by (rule step_Br_0_after_Loop [OF assms(2)])
  have nf: "\<not> finished f" "\<not> finished ?g"
    using assms by (auto simp add: finished_def at_index_def split: if_splits)
  show "\<exists>f'. CallFrame_steps k f = Inr f' \<and> pc f \<le> pc f' \<and> pc f' \<le> pc f + 1 \<and> \<not> finished f'"
  proof (cases "even k")
    case True
    then obtain m where "k = 2 * m" by (auto elim: evenE)
    with even [of m] nf show ?thesis by simp
  next
    case False
    then obtain m where "k = 2 * m + 1" by (auto elim: oddE)
    with odd [of m] nf show ?thesis by simp
  qed
  show "CallFrame_run f = None"
    using nf step_Loop [OF assms(1)] step_Br_0_after_Loop [OF assms(2)]
    by (rule run_two_cycle_diverges)
qed

theorem loop_br_never_advances_witness:
  "at_index (CallFrame.instructions loop_frame) (pc loop_frame) = Some Loop
   \<and> at_index (CallFrame.instructions loop_frame) (pc loop_frame + 1) = Some (Br 0)
   \<and> CallFrame_step (new_CallFrame [Nop, Loop, Br 0, End] [] []) = Inr loop_frame
   \<and> CallFrame_steps 6 loop_frame = Inr loop_frame
   \<and> CallFrame_steps 7 loop_frame = Inr (loop_frame\<lparr>blocks := blocks loop_frame @ [new_BlockFrame [] 0], pc := 2\<rparr>)
   \<and> CallFrame_step (loop_frame\<lparr>blocks := blocks loop_frame @ [new_BlockFrame [] 0], pc := 2\<rparr>) = Inr loop_frame
   \<and> pc loop_frame = 1
   \<and> CallFrame_run loop_frame = None"
proof -
  have l: "at_index (CallFrame.instructions loop_frame) (pc loop_frame) = Some Loop"
    and b: "at_index (CallFrame.instructions loop_frame) (pc loop_frame + 1) = Some (Br 0)"
    by (simp_all add: loop_frame_def new_CallFrame_def at_index_def)
  have p: "pc loop_frame = 1" by (simp add: loop_frame_def)
  have s: "CallFrame_step (new_CallFrame [Nop, Loop, Br 0, End] [] []) = Inr loop_frame"
    by (simp add: loop_frame_def new_CallFrame_def CallFrame_step_def at_index_def seq_def)
  show ?thesis
    using l b s p loop_br_never_advances [OF l b, of 3 0] by simp
qed

end
